theory Spec2Isabelle
  imports Complex_Main
begin

section \<open>Python values and exceptions\<close>

text \<open>
  The module \<^verbatim>\<open>corenet/engine/utils.py\<close> works on ordinary Python data:
  \<^verbatim>\<open>None\<close>, booleans, integers, floats, strings, lists, tuples, dictionaries with
  string keys, and torch tensors. A float is a value of the type parameter \<open>'f\<close>: the
  module never inspects one, it only hands it to \<^verbatim>\<open>round\<close>. A dictionary is the list
  of its items in insertion order. Of a tensor the module reads the shape
  (\<^verbatim>\<open>x.shape[0]\<close>) and, in \<^verbatim>\<open>step_log_metrics\<close>, its truth value; the second
  component of \<open>PTensor\<close> is that truth value, \<open>None\<close> when \<^verbatim>\<open>bool(x)\<close> raises
  (as torch does for a tensor with several elements).
\<close>

datatype 'f pyval =
    PNone
  | PBool bool
  | PInt int
  | PFloat 'f
  | PStr string
  | PList "'f pyval list"
  | PTuple "'f pyval list"
  | PDict "(string \<times> 'f pyval) list"
  | PTensor "nat list" "bool option"

datatype nie_reason = Invalid_dict_keys "string list" | Invalid_type

datatype exn =
    NotImplementedError nie_reason
  | IndexError
  | TypeError
  | KeyError "string option"
  | RuntimeError
  | SystemExit string
  | ModuleNotFoundError
  | ImportError
  | AttributeError
  | OSError
  | KeyboardInterrupt
  | RecursionError
  | SystemError

fun isinstance_Tensor :: "'f pyval \<Rightarrow> bool" where
  "isinstance_Tensor (PTensor shape t) = True"
| "isinstance_Tensor _ = False"

fun isinstance_Dict :: "'f pyval \<Rightarrow> bool" where
  "isinstance_Dict (PDict d) = True"
| "isinstance_Dict _ = False"

fun isinstance_List :: "'f pyval \<Rightarrow> bool" where
  "isinstance_List (PList xs) = True"
| "isinstance_List _ = False"

text \<open>\<^verbatim>\<open>key in x\<close> and \<^verbatim>\<open>x[key]\<close> on a dictionary.\<close>

definition has_key :: "(string \<times> 'v) list \<Rightarrow> string \<Rightarrow> bool" where
  "has_key x key = (map_of x key \<noteq> None)"

section \<open>get_batch_size\<close>

text \<open>
  \<^verbatim>\<open>for key in ("image", "video", "audio"): if key in x: return get_batch_size(x[key])\<close>:
  the loop finds the value of the first of the keys that the dictionary has.
\<close>

fun first_present :: "string list \<Rightarrow> (string \<times> 'v) list \<Rightarrow> 'v option" where
  "first_present [] x = None"
| "first_present (key # keys) x =
     (case map_of x key of Some v \<Rightarrow> Some v | None \<Rightarrow> first_present keys x)"

definition batch_keys :: "string list" where
  "batch_keys = [''image'', ''video'', ''audio'']"

lemma map_of_size:
  "map_of d k = Some v \<Longrightarrow> size v < Suc (size_list (size_prod (\<lambda>_. 0) size) d)"
  by (induction d) (auto split: if_splits)

lemma first_present_size:
  "first_present ks d = Some v \<Longrightarrow> size v < Suc (size_list (size_prod (\<lambda>_. 0) size) d)"
  by (induction ks) (auto split: option.splits dest: map_of_size)

function get_batch_size :: "'f pyval \<Rightarrow> exn + nat" where
  "get_batch_size (PTensor shape t) =
     (case shape of [] \<Rightarrow> Inl IndexError | n # _ \<Rightarrow> Inr n)"
| "get_batch_size (PDict x) =
     (case first_present batch_keys x of
        Some v \<Rightarrow> get_batch_size v
      | None \<Rightarrow> Inl (NotImplementedError (Invalid_dict_keys (map fst x))))"
| "get_batch_size (PList x) = Inr (length x)"
| "get_batch_size PNone = Inl (NotImplementedError Invalid_type)"
| "get_batch_size (PBool b) = Inl (NotImplementedError Invalid_type)"
| "get_batch_size (PInt i) = Inl (NotImplementedError Invalid_type)"
| "get_batch_size (PFloat f) = Inl (NotImplementedError Invalid_type)"
| "get_batch_size (PStr s) = Inl (NotImplementedError Invalid_type)"
| "get_batch_size (PTuple xs) = Inl (NotImplementedError Invalid_type)"
  by pat_completeness auto
termination
  by (relation "measure size") (auto dest: first_present_size)

fun raises_NotImplementedError :: "exn + 'a \<Rightarrow> bool" where
  "raises_NotImplementedError (Inl (NotImplementedError r)) = True"
| "raises_NotImplementedError _ = False"

lemma first_present_batch_keys:
  "first_present batch_keys x =
     (if has_key x ''image'' then map_of x ''image''
      else if has_key x ''video'' then map_of x ''video''
      else if has_key x ''audio'' then map_of x ''audio''
      else None)"
  by (auto simp: batch_keys_def has_key_def split: option.splits)

lemma get_batch_size_other:
  "\<not> isinstance_Tensor x \<Longrightarrow> \<not> isinstance_Dict x \<Longrightarrow> \<not> isinstance_List x \<Longrightarrow>
   get_batch_size x = Inl (NotImplementedError Invalid_type)"
  by (cases x) simp_all

text \<open>
  C1. A tensor gives the size of its first dimension (\<open>n\<close> when the shape is
  \<open>n # ns\<close>); a dictionary with one of the keys \<^verbatim>\<open>image\<close>, \<^verbatim>\<open>video\<close>,
  \<^verbatim>\<open>audio\<close> gives whatever \<open>get_batch_size\<close> gives on the value of the first of them
  that is present, in this order; a list gives its length.
\<close>

theorem get_batch_size_infers:
  "get_batch_size (PTensor (n # ns) t :: 'f pyval) = Inr n
   \<and> (has_key x1 ''image'' \<longrightarrow>
        get_batch_size (PDict x1 :: 'f pyval) = get_batch_size (the (map_of x1 ''image'')))
   \<and> (\<not> has_key x2 ''image'' \<and> has_key x2 ''video'' \<longrightarrow>
        get_batch_size (PDict x2 :: 'f pyval) = get_batch_size (the (map_of x2 ''video'')))
   \<and> (\<not> has_key x3 ''image'' \<and> \<not> has_key x3 ''video'' \<and> has_key x3 ''audio'' \<longrightarrow>
        get_batch_size (PDict x3 :: 'f pyval) = get_batch_size (the (map_of x3 ''audio'')))
   \<and> get_batch_size (PList xs :: 'f pyval) = Inr (length xs)"
  by (auto simp: first_present_batch_keys has_key_def)

theorem get_batch_size_infers_witness:
  "get_batch_size (PTensor [8, 3, 224, 224] None :: rat pyval) = Inr 8
   \<and> get_batch_size
        (PDict [(''audio'', PList [PNone]), (''image'', PTensor [2, 3] None),
                (''video'', PTensor [4, 16] None)] :: rat pyval) = Inr 2
   \<and> get_batch_size
        (PDict [(''audio'', PList [PNone]), (''video'', PTensor [4, 16] None)] :: rat pyval)
      = Inr 4
   \<and> get_batch_size (PDict [(''audio'', PList [PNone]), (''label'', PNone)] :: rat pyval)
      = Inr 1
   \<and> get_batch_size (PList [PInt 1, PInt 2, PInt 3] :: rat pyval) = Inr 3"
  using get_batch_size_infers
    [of 8 "[3, 224, 224]" None
        "[(''audio'', PList [PNone]), (''image'', PTensor [2, 3] None),
          (''video'', PTensor [4, 16] None :: rat pyval)]"
        "[(''audio'', PList [PNone]), (''video'', PTensor [4, 16] None :: rat pyval)]"
        "[(''audio'', PList [PNone]), (''label'', PNone :: rat pyval)]"
        "[PInt 1, PInt 2, PInt 3 :: rat pyval]"]
  by (simp add: has_key_def)

text \<open>
  A tensor without dimensions, such as \<^verbatim>\<open>torch.tensor(1.0)\<close>, has no first dimension:
  its shape is empty and \<^verbatim>\<open>x.shape[0]\<close> raises IndexError.
\<close>

lemma get_batch_size_scalar_tensor:
  "get_batch_size (PTensor [] t) = Inl IndexError"
  by simp

text \<open>
  C2, as the code has it. NotImplementedError is raised by a dictionary with none of the
  three keys and by a value that is neither tensor, dictionary nor list; it is never
  raised by a tensor or a list; and a dictionary with one of the keys raises it exactly
  when the value of the first key present does.
\<close>

theorem get_batch_size_raises:
  "(\<not> has_key d ''image'' \<and> \<not> has_key d ''video'' \<and> \<not> has_key d ''audio'' \<longrightarrow>
      raises_NotImplementedError (get_batch_size (PDict d :: 'f pyval)))
   \<and> (\<not> isinstance_Tensor (x :: 'f pyval) \<and> \<not> isinstance_Dict x \<and> \<not> isinstance_List x \<longrightarrow>
      raises_NotImplementedError (get_batch_size x))
   \<and> (isinstance_Tensor (y :: 'f pyval) \<or> isinstance_List y \<longrightarrow>
      \<not> raises_NotImplementedError (get_batch_size y))
   \<and> (first_present batch_keys e = Some v \<longrightarrow>
      raises_NotImplementedError (get_batch_size (PDict e :: 'f pyval))
        = raises_NotImplementedError (get_batch_size v))"
proof -
  have "isinstance_Tensor y \<or> isinstance_List y \<Longrightarrow>
        \<not> raises_NotImplementedError (get_batch_size y)"
    by (cases y) (auto split: list.splits)
  then show ?thesis
    by (auto simp: first_present_batch_keys get_batch_size_other)
qed

theorem get_batch_size_raises_witness:
  "raises_NotImplementedError (get_batch_size (PDict [(''label'', PInt 1)] :: rat pyval))
   \<and> raises_NotImplementedError (get_batch_size (PStr ''image'' :: rat pyval))
   \<and> \<not> raises_NotImplementedError (get_batch_size (PTensor [] None :: rat pyval))
   \<and> raises_NotImplementedError (get_batch_size (PDict [(''video'', PTuple [])] :: rat pyval))"
  using get_batch_size_raises
    [of "[(''label'', PInt 1 :: rat pyval)]" "PStr ''image''" "PTensor [] None"
        "[(''video'', PTuple [] :: rat pyval)]" "PTuple []"]
  by (simp add: has_key_def batch_keys_def)

text \<open>
  C2 as stated fails on a dictionary that has the key \<^verbatim>\<open>image\<close> bound to a value of
  an unsupported type: the recursive call raises NotImplementedError.
\<close>

theorem get_batch_size_nested_unsupported:
  "isinstance_Dict (PDict [(''image'', PInt 5)] :: rat pyval)
   \<and> has_key [(''image'', PInt 5 :: rat pyval)] ''image''
   \<and> get_batch_size (PDict [(''image'', PInt 5)] :: rat pyval)
       = Inl (NotImplementedError Invalid_type)"
  by (simp add: has_key_def batch_keys_def)

section \<open>flatten\<close>

text \<open>
  \<^verbatim>\<open>dict(items)\<close> inserts the pairs in order: a key that is already there keeps its
  place and takes the new value.
\<close>

fun dict_setitem :: "(string \<times> 'v) list \<Rightarrow> string \<Rightarrow> 'v \<Rightarrow> (string \<times> 'v) list" where
  "dict_setitem [] key v = [(key, v)]"
| "dict_setitem ((k, w) # d) key v =
     (if k = key then (k, v) # d else (k, w) # dict_setitem d key v)"

definition dict_of_items :: "(string \<times> 'v) list \<Rightarrow> (string \<times> 'v) list" where
  "dict_of_items items = foldl (\<lambda>d (key, v). dict_setitem d key v) [] items"

text \<open>
  \<^verbatim>\<open>new_key = parent_key + separator + key if parent_key else key\<close>
\<close>

definition extend_key :: "string \<Rightarrow> string \<Rightarrow> string \<Rightarrow> string" where
  "extend_key separator parent_key key =
     (if parent_key \<noteq> [] then parent_key @ separator @ key else key)"

text \<open>
  \<open>flatten_loop\<close> is the \<^verbatim>\<open>for key, value in dictionary.items()\<close> loop; its last
  argument is the list \<^verbatim>\<open>items\<close> the loop appends to. The only values of the model that
  are instances of \<^verbatim>\<open>MutableMapping\<close> are the dictionaries.
\<close>

function flatten ::
    "(string \<times> 'f pyval) list \<Rightarrow> string \<Rightarrow> string \<Rightarrow> (string \<times> 'f pyval) list"
  and flatten_loop ::
    "(string \<times> 'f pyval) list \<Rightarrow> string \<Rightarrow> string \<Rightarrow> (string \<times> 'f pyval) list
       \<Rightarrow> (string \<times> 'f pyval) list"
where
  "flatten dictionary parent_key separator =
     dict_of_items (flatten_loop dictionary parent_key separator [])"
| "flatten_loop [] parent_key separator items = items"
| "flatten_loop ((key, v) # rest) parent_key separator items =
     (let new_key = (if parent_key \<noteq> [] then parent_key @ separator @ key else key) in
      case v of
        PDict d \<Rightarrow>
          flatten_loop rest parent_key separator (items @ flatten d new_key separator)
      | _ \<Rightarrow> flatten_loop rest parent_key separator (items @ [(new_key, v)]))"
  by pat_completeness auto
termination
  apply (relation "measure (\<lambda>a. case a of
            Inl (d, _, _) \<Rightarrow> 2 * size_list (size_prod (\<lambda>_. 0) size) d + 1
          | Inr (d, _, _, _) \<Rightarrow> 2 * size_list (size_prod (\<lambda>_. 0) size) d)")
  apply auto
  done


text \<open>
  What the specification speaks of: the maximal paths of keys that lead through nested
  dictionaries to a leaf that is not a dictionary, in iteration order, and the keys of a
  path joined with the separator.
\<close>

function leaf_paths :: "(string \<times> 'f pyval) list \<Rightarrow> (string list \<times> 'f pyval) list" where
  "leaf_paths [] = []"
| "leaf_paths ((key, v) # rest) =
     (case v of
        PDict d \<Rightarrow> map (\<lambda>(ks, leaf). (key # ks, leaf)) (leaf_paths d)
      | _ \<Rightarrow> [([key], v)]) @ leaf_paths rest"
  by pat_completeness auto
termination
  by (relation "measure (size_list (size_prod (\<lambda>_. 0) size))") auto

fun join_keys :: "string \<Rightarrow> string list \<Rightarrow> string" where
  "join_keys separator [] = []"
| "join_keys separator [key] = key"
| "join_keys separator (key # keys) = key @ separator @ join_keys separator keys"

text \<open>The key the code builds along a path, starting from \<open>parent_key\<close>.\<close>

definition keyed_paths ::
  "string \<Rightarrow> string \<Rightarrow> (string \<times> 'f pyval) list \<Rightarrow> (string \<times> 'f pyval) list" where
  "keyed_paths parent_key separator d =
     map (\<lambda>(ks, leaf). (foldl (extend_key separator) parent_key ks, leaf)) (leaf_paths d)"

text \<open>The key the specification gives a path: its keys joined with the separator.\<close>

definition joined_paths ::
  "string \<Rightarrow> (string \<times> 'f pyval) list \<Rightarrow> (string \<times> 'f pyval) list" where
  "joined_paths separator d = map (\<lambda>(ks, leaf). (join_keys separator ks, leaf)) (leaf_paths d)"

lemma map_of_dict_setitem: "map_of (dict_setitem d key v) = (map_of d)(key \<mapsto> v)"
  by (induction d key v rule: dict_setitem.induct) auto

lemma keys_dict_setitem: "fst ` set (dict_setitem d key v) = insert key (fst ` set d)"
  by (induction d key v rule: dict_setitem.induct) auto

lemma distinct_dict_setitem:
  "distinct (map fst d) \<Longrightarrow> distinct (map fst (dict_setitem d key v))"
proof (induction d key v rule: dict_setitem.induct)
  case (1 key v)
  then show ?case by simp
next
  case (2 k w d key v)
  then show ?case
    using keys_dict_setitem [of d key v] by (auto simp: image_iff)
qed

lemma map_of_foldl_setitem:
  "map_of (foldl (\<lambda>d (key, v). dict_setitem d key v) acc items)
     = map_of acc ++ map_of (rev items)"
proof (induction items arbitrary: acc)
  case Nil
  then show ?case by simp
next
  case (Cons a items)
  obtain k v where a: "a = (k, v)" by (cases a)
  show ?case
    by (auto simp: a Cons.IH map_of_dict_setitem map_add_def fun_eq_iff split: option.splits)
qed


lemma distinct_foldl_setitem:
  "distinct (map fst acc) \<Longrightarrow>
   distinct (map fst (foldl (\<lambda>d (key, v). dict_setitem d key v) acc items))"
  by (induction items arbitrary: acc) (auto simp: distinct_dict_setitem)

lemma map_of_dict_of_items: "map_of (dict_of_items items) = map_of (rev items)"
  by (simp add: dict_of_items_def map_of_foldl_setitem)

lemma distinct_dict_of_items: "distinct (map fst (dict_of_items items))"
  by (simp add: dict_of_items_def distinct_foldl_setitem)

lemma map_of_rev_distinct: "distinct (map fst xs) \<Longrightarrow> map_of (rev xs) = map_of xs"
  using map_of_inject_set [of "rev xs" xs] by (simp add: rev_map [symmetric])

lemma map_of_rev_append3:
  "map_of (rev b) = map_of (rev b') \<Longrightarrow>
   map_of (rev (a @ b @ c)) = map_of (rev (a @ b' @ c))"
  by (simp add: map_add_def fun_eq_iff)

lemma keyed_paths_Cons_dict:
  "keyed_paths pk sep ((key, PDict d) # rest)
     = keyed_paths (extend_key sep pk key) sep d @ keyed_paths pk sep rest"
  by (simp add: keyed_paths_def comp_def case_prod_unfold)

lemma keyed_paths_Cons_leaf:
  "\<not> isinstance_Dict v \<Longrightarrow>
   keyed_paths pk sep ((key, v) # rest) = (extend_key sep pk key, v) # keyed_paths pk sep rest"
  by (cases v) (simp_all add: keyed_paths_def)

lemma flatten_loop_Cons:
  "flatten_loop ((key, v) # rest) pk sep items =
     flatten_loop rest pk sep
       (items @ (case v of PDict d \<Rightarrow> flatten d (extend_key sep pk key) sep
                 | _ \<Rightarrow> [(extend_key sep pk key, v)]))"
  by (cases v) (simp_all add: extend_key_def)

declare flatten_loop.simps(2) [simp del]

text \<open>
  In general the result binds a key to the leaf of the last path, in iteration order,
  that the code gives this key.
\<close>

lemma flatten_last_path_wins:
  "map_of (flatten d pk sep) = map_of (rev (keyed_paths pk sep d))"
  "map_of (rev (flatten_loop d pk sep items)) = map_of (rev (items @ keyed_paths pk sep d))"
proof (induction d pk sep and d pk sep items rule: flatten_flatten_loop.induct)
  case (1 dictionary parent_key separator)
  then show ?case
    by (simp add: map_of_dict_of_items)
next
  case (2 parent_key separator items)
  then show ?case by (simp add: keyed_paths_def)
next
  case (3 key v rest parent_key separator items)
  let ?nk = "extend_key separator parent_key key"
  have nk: "(if parent_key \<noteq> [] then parent_key @ separator @ key else key) = ?nk"
    by (simp add: extend_key_def)
  show ?case
  proof (cases "isinstance_Dict v")
    case True
    then obtain d where v: "v = PDict d" by (cases v) auto
    have P: "map_of (flatten d ?nk separator) = map_of (rev (keyed_paths ?nk separator d))"
      using "3.IH"(8) [OF refl v] by (simp add: nk)
    have Q: "map_of (rev (flatten_loop rest parent_key separator (items @ flatten d ?nk separator)))
          = map_of (rev ((items @ flatten d ?nk separator) @ keyed_paths parent_key separator rest))"
      using "3.IH"(9) [OF refl v] by (simp add: nk)
    have "map_of (rev (flatten d ?nk separator)) = map_of (rev (keyed_paths ?nk separator d))"
      using P by (simp add: map_of_rev_distinct distinct_dict_of_items)
    from map_of_rev_append3 [OF this, of items "keyed_paths parent_key separator rest"]
    show ?thesis
      by (simp add: v flatten_loop_Cons Q keyed_paths_Cons_dict del: flatten.simps)
  next
    case False
    have Q: "map_of (rev (flatten_loop rest parent_key separator (items @ [(?nk, v)])))
          = map_of (rev ((items @ [(?nk, v)]) @ keyed_paths parent_key separator rest))"
      using False "3.IH" by (cases v) (simp_all add: nk)
    have fl: "flatten_loop ((key, v) # rest) parent_key separator items
            = flatten_loop rest parent_key separator (items @ [(?nk, v)])"
      using False by (cases v) (simp_all add: flatten_loop_Cons)
    show ?thesis
      using False by (simp add: fl Q keyed_paths_Cons_leaf)
  qed
qed


lemma leaf_paths_not_dict: "(ks, leaf) \<in> set (leaf_paths d) \<Longrightarrow> \<not> isinstance_Dict leaf"
proof (induction d arbitrary: ks leaf rule: leaf_paths.induct)
  case 1
  then show ?case by simp
next
  case (2 key v rest)
  then show ?case
    by (cases v) auto
qed

lemma leaf_paths_no_empty_path: "([], leaf) \<notin> set (leaf_paths d)"
proof (induction d arbitrary: leaf rule: leaf_paths.induct)
  case 1
  then show ?case by simp
next
  case (2 key v rest)
  then show ?case
    by (cases v) auto
qed

lemma leaf_paths_nonempty: "(ks, leaf) \<in> set (leaf_paths d) \<Longrightarrow> ks \<noteq> []"
  using leaf_paths_no_empty_path by blast

lemma foldl_extend_key_nonempty:
  "pk \<noteq> [] \<Longrightarrow> foldl (extend_key sep) pk ks = pk @ concat (map (\<lambda>k. sep @ k) ks)"
  by (induction ks arbitrary: pk) (simp_all add: extend_key_def)

lemma join_keys_Cons: "join_keys sep (k # ks) = k @ concat (map (\<lambda>k. sep @ k) ks)"
  by (induction ks arbitrary: k) simp_all

lemma foldl_extend_key_join:
  "ks \<noteq> [] \<Longrightarrow> length ks = 1 \<or> hd ks \<noteq> [] \<Longrightarrow>
   foldl (extend_key sep) [] ks = join_keys sep ks"
proof (cases ks)
  case Nil
  assume "ks \<noteq> []"
  with Nil show ?thesis by simp
next
  case (Cons k rest)
  assume "length ks = 1 \<or> hd ks \<noteq> []"
  with Cons show ?thesis
    by (cases "k = []")
       (auto simp: extend_key_def foldl_extend_key_nonempty join_keys_Cons)
qed

lemma keyed_paths_joined:
  assumes "\<forall>(ks, leaf) \<in> set (leaf_paths d). length ks = 1 \<or> hd ks \<noteq> []"
  shows "keyed_paths [] sep d = joined_paths sep d"
  unfolding keyed_paths_def joined_paths_def
  using assms by (auto simp: foldl_extend_key_join leaf_paths_nonempty)

text \<open>
  C4, as the code has it. Let no two maximal paths of the dictionary join to the same
  key, and let no path of several keys start with the empty key. Then the items of
  \<open>flatten d\<close> are exactly the pairs of a joined path key and the leaf the path leads
  to; the keys of the result are distinct and none of its values is a dictionary.
\<close>

theorem flatten_paths:
  assumes "\<forall>(ks, leaf) \<in> set (leaf_paths d). length ks = 1 \<or> hd ks \<noteq> []"
    and "distinct (map fst (joined_paths sep d))"
  shows "set (flatten d [] sep) = set (joined_paths sep d)
     \<and> distinct (map fst (flatten d [] sep))
     \<and> (\<forall>(k, v) \<in> set (flatten d [] sep). \<not> isinstance_Dict v)"
proof -
  have k: "keyed_paths [] sep d = joined_paths sep d"
    using assms(1) by (rule keyed_paths_joined)
  have m: "map_of (flatten d [] sep) = map_of (joined_paths sep d)"
    using flatten_last_path_wins(1) [of d "[]" sep] assms(2)
    by (simp add: k map_of_rev_distinct del: flatten.simps)
  have dist: "distinct (map fst (flatten d [] sep))"
    by (simp add: distinct_dict_of_items)
  have s: "set (flatten d [] sep) = set (joined_paths sep d)"
    using map_of_inject_set [OF dist assms(2)] m by simp
  have "\<not> isinstance_Dict v" if "(k, v) \<in> set (joined_paths sep d)" for k v
    using that leaf_paths_not_dict [of _ v d] by (auto simp: joined_paths_def)
  with s dist show ?thesis by auto
qed

theorem flatten_paths_witness:
  "leaf_paths
        [(''a'', PInt 1),
         (''b'', PDict [(''c'', PInt 2), (''d'', PDict [(''e'', PStr ''x'' :: rat pyval)])]),
         (''z'', PDict [])]
      = [([''a''], PInt 1), ([''b'', ''c''], PInt 2), ([''b'', ''d'', ''e''], PStr ''x'')]
   \<and> distinct (map fst (joined_paths ''/''
        [(''a'', PInt 1),
         (''b'', PDict [(''c'', PInt 2), (''d'', PDict [(''e'', PStr ''x'' :: rat pyval)])]),
         (''z'', PDict [])]))
   \<and> set (flatten
        [(''a'', PInt 1),
         (''b'', PDict [(''c'', PInt 2), (''d'', PDict [(''e'', PStr ''x'')])]),
         (''z'', PDict [])] [] ''/'')
      = {(''a'', PInt 1), (''b/c'', PInt 2), (''b/d/e'', PStr ''x'' :: rat pyval)}"
  using flatten_paths
    [of "[(''a'', PInt 1),
          (''b'', PDict [(''c'', PInt 2), (''d'', PDict [(''e'', PStr ''x'' :: rat pyval)])]),
          (''z'', PDict [])]" "''/''"]
  by (simp add: joined_paths_def flatten_loop.simps dict_of_items_def)

text \<open>
  C4 as stated fails in two ways. Two paths can join to the same key, and then the leaf
  of the later one is the only one kept: in \<^verbatim>\<open>{"a/b": 1, "a": {"b": 2}}\<close> the path
  \<^verbatim>\<open>a/b\<close> leads to 1, and the result binds \<^verbatim>\<open>a/b\<close> to 2. And a nested dictionary
  under the empty key gets no separator: \<^verbatim>\<open>{"": {"x": 1}}\<close> gives the key
  \<^verbatim>\<open>x\<close>, not \<^verbatim>\<open>/x\<close>.
\<close>

theorem flatten_not_all_paths:
  "leaf_paths [(''a/b'', PInt 1), (''a'', PDict [(''b'', PInt 2 :: rat pyval)])]
     = [([''a/b''], PInt 1), ([''a'', ''b''], PInt 2)]
   \<and> flatten [(''a/b'', PInt 1), (''a'', PDict [(''b'', PInt 2 :: rat pyval)])] [] ''/''
     = [(''a/b'', PInt 2)]
   \<and> leaf_paths [([], PDict [(''x'', PInt 1 :: rat pyval)])] = [([[], ''x''], PInt 1)]
   \<and> join_keys ''/'' [[], ''x''] = ''/x''
   \<and> flatten [([], PDict [(''x'', PInt 1 :: rat pyval)])] [] ''/'' = [(''x'', PInt 1)]"
  by (simp add: flatten_loop.simps dict_of_items_def)

section \<open>Logging scalars\<close>

text \<open>
  \<^verbatim>\<open>numbers.Number\<close> has the booleans, the integers and the floats among the values of
  the model.
\<close>

fun isinstance_Number :: "'f pyval \<Rightarrow> bool" where
  "isinstance_Number (PBool b) = True"
| "isinstance_Number (PInt i) = True"
| "isinstance_Number (PFloat f) = True"
| "isinstance_Number _ = False"

text \<open>
  \<^verbatim>\<open>round(x, ndigits)\<close>. On a float it is the function \<open>rnd\<close>, a parameter of the model:
  which float Python's rounding picks is not modelled. An integer is returned as it is, a
  boolean as the integer 0 or 1, and any other type has no \<^verbatim>\<open>__round__\<close> and raises
  TypeError.
\<close>

fun py_round :: "('f \<Rightarrow> nat \<Rightarrow> 'f) \<Rightarrow> 'f pyval \<Rightarrow> nat \<Rightarrow> exn + 'f pyval" where
  "py_round rnd (PFloat f) ndigits = Inr (PFloat (rnd f ndigits))"
| "py_round rnd (PInt i) ndigits = Inr (PInt i)"
| "py_round rnd (PBool b) ndigits = Inr (PInt (if b then 1 else 0))"
| "py_round rnd _ ndigits = Inl TypeError"

text \<open>
  The truth value of a Python value. A float is false when it equals zero, a container
  when it is empty; the truth value of a tensor is the one the tensor carries, and its
  test raises RuntimeError when it carries none.
\<close>

fun truthy :: "'f::zero pyval \<Rightarrow> exn + bool" where
  "truthy PNone = Inr False"
| "truthy (PBool b) = Inr b"
| "truthy (PInt i) = Inr (i \<noteq> 0)"
| "truthy (PFloat f) = Inr (f \<noteq> 0)"
| "truthy (PStr s) = Inr (s \<noteq> [])"
| "truthy (PList xs) = Inr (xs \<noteq> [])"
| "truthy (PTuple xs) = Inr (xs \<noteq> [])"
| "truthy (PDict d) = Inr (d \<noteq> [])"
| "truthy (PTensor shape t) = (case t of None \<Rightarrow> Inl RuntimeError | Some b \<Rightarrow> Inr b)"

text \<open>\<^verbatim>\<open>"LR/Group-{}".format(g_id)\<close> writes the index in decimal.\<close>

definition digit_char :: "nat \<Rightarrow> char" where
  "digit_char d = ''0123456789'' ! d"

function str_nat :: "nat \<Rightarrow> string" where
  "str_nat n = (if n < 10 then [digit_char n] else str_nat (n div 10) @ [digit_char (n mod 10)])"
  by pat_completeness auto
termination
  by (relation "measure id") auto

declare str_nat.simps [simp del]


text \<open>
  The log writer is an opaque collaborator: a state of some type \<open>'w\<close> and its operation
  \<^verbatim>\<open>add_scalar(name, value, step)\<close>, which takes the state to a new one. The functions
  return the state of the writer and the exception raised, if one was: the calls made
  before an exception stay made.
\<close>

type_synonym 'f call = "string \<times> 'f pyval \<times> int"

type_synonym ('f, 'w) add_scalar = "string \<Rightarrow> 'f pyval \<Rightarrow> int \<Rightarrow> 'w \<Rightarrow> 'w"

text \<open>\<^verbatim>\<open>if not isinstance(lrs, list): lrs = [lrs]\<close>\<close>

definition as_list :: "'f pyval \<Rightarrow> 'f pyval list" where
  "as_list lrs = (case lrs of PList xs \<Rightarrow> xs | _ \<Rightarrow> [lrs])"

text \<open>\<^verbatim>\<open>for g_id, lr_val in enumerate(lrs): log_writer.add_scalar(..., round(lr_val, 6), step)\<close>\<close>

fun lr_loop ::
  "('f \<Rightarrow> nat \<Rightarrow> 'f) \<Rightarrow> ('f, 'w) add_scalar \<Rightarrow> nat \<Rightarrow> 'f pyval list \<Rightarrow> int \<Rightarrow> 'w
     \<Rightarrow> 'w \<times> exn option" where
  "lr_loop rnd add_scalar g_id [] step log_writer = (log_writer, None)"
| "lr_loop rnd add_scalar g_id (lr_val # rest) step log_writer =
     (case py_round rnd lr_val 6 of
        Inl e \<Rightarrow> (log_writer, Some e)
      | Inr r \<Rightarrow>
          lr_loop rnd add_scalar (Suc g_id) rest step
            (add_scalar (''LR/Group-'' @ str_nat g_id) r step log_writer))"


text \<open>
  \<^verbatim>\<open>isinstance(metric_value, Number) or metric_value\<close>: the truth value is only tested
  when the value is not a number.
\<close>

definition number_or_truthy :: "'f::zero pyval \<Rightarrow> exn + bool" where
  "number_or_truthy metric_value =
     (if isinstance_Number metric_value then Inr True else truthy metric_value)"

fun metrics_loop ::
  "('f::zero, 'w) add_scalar \<Rightarrow> (string \<times> 'f pyval) list \<Rightarrow> int \<Rightarrow> 'w \<Rightarrow> 'w \<times> exn option"
where
  "metrics_loop add_scalar [] step log_writer = (log_writer, None)"
| "metrics_loop add_scalar ((metric_name, metric_value) # rest) step log_writer =
     (case number_or_truthy metric_value of
        Inl e \<Rightarrow> (log_writer, Some e)
      | Inr c \<Rightarrow>
          if \<not> c then metrics_loop add_scalar rest step log_writer
          else metrics_loop add_scalar rest step
                 (add_scalar metric_name metric_value step log_writer))"

definition step_log_metrics ::
  "('f \<Rightarrow> nat \<Rightarrow> 'f) \<Rightarrow> ('f::zero, 'w) add_scalar \<Rightarrow> 'f pyval \<Rightarrow> 'w \<Rightarrow> int
     \<Rightarrow> (string \<times> 'f pyval) list option \<Rightarrow> 'w \<times> exn option" where
  "step_log_metrics rnd add_scalar lrs log_writer step metrics =
     (case lr_loop rnd add_scalar 0 (as_list lrs) step log_writer of
        (w, Some e) \<Rightarrow> (w, Some e)
      | (w, None) \<Rightarrow>
          (case metrics of
             None \<Rightarrow> (w, None)
           | Some m \<Rightarrow> metrics_loop add_scalar (flatten m [] ''/'') step w))"

text \<open>
  What the specification speaks of: the sequence of \<^verbatim>\<open>add_scalar\<close> calls, each a name, a
  value and a step; running such a sequence on a writer; and a writer that records the
  calls it receives.
\<close>

definition run_calls :: "('f, 'w) add_scalar \<Rightarrow> 'f call list \<Rightarrow> 'w \<Rightarrow> 'w" where
  "run_calls add_scalar calls w = foldl (\<lambda>w (name, v, step). add_scalar name v step w) w calls"

definition record_call :: "('f, 'f call list) add_scalar" where
  "record_call name v step trace = trace @ [(name, v, step)]"


fun lr_calls :: "('f \<Rightarrow> nat \<Rightarrow> 'f) \<Rightarrow> nat \<Rightarrow> 'f pyval list \<Rightarrow> int \<Rightarrow> 'f call list" where
  "lr_calls rnd g_id [] step = []"
| "lr_calls rnd g_id (lr_val # rest) step =
     (''LR/Group-'' @ str_nat g_id, projr (py_round rnd lr_val 6), step)
       # lr_calls rnd (Suc g_id) rest step"

definition logged_metrics :: "(string \<times> 'f::zero pyval) list \<Rightarrow> int \<Rightarrow> 'f call list" where
  "logged_metrics flattened_metrics step =
     map (\<lambda>(name, v). (name, v, step))
       (filter (\<lambda>(name, v). isinstance_Number v \<or> truthy v = Inr True) flattened_metrics)"

definition metric_items :: "(string \<times> 'f pyval) list option \<Rightarrow> (string \<times> 'f pyval) list" where
  "metric_items metrics = (case metrics of None \<Rightarrow> [] | Some m \<Rightarrow> flatten m [] ''/'')"

text \<open>
  A rounding of rationals to decimal places, ties to the even digit, to run the model on.
  Python rounds the binary double, which this does not model.
\<close>

definition round_half_even :: "rat \<Rightarrow> int" where
  "round_half_even y =
     (if y - of_int \<lfloor>y\<rfloor> < 1 / 2 then \<lfloor>y\<rfloor>
      else if 1 / 2 < y - of_int \<lfloor>y\<rfloor> then \<lfloor>y\<rfloor> + 1
      else if even \<lfloor>y\<rfloor> then \<lfloor>y\<rfloor> else \<lfloor>y\<rfloor> + 1)"

definition round_dec :: "rat \<Rightarrow> nat \<Rightarrow> rat" where
  "round_dec x ndigits = of_int (round_half_even (x * 10 ^ ndigits)) / 10 ^ ndigits"

lemma run_calls_Nil: "run_calls add_scalar [] w = w"
  by (simp add: run_calls_def)

lemma run_calls_Cons:
  "run_calls add_scalar ((name, v, step) # calls) w
     = run_calls add_scalar calls (add_scalar name v step w)"
  by (simp add: run_calls_def)

lemma run_calls_append:
  "run_calls add_scalar (xs @ ys) w = run_calls add_scalar ys (run_calls add_scalar xs w)"
  by (simp add: run_calls_def)

lemma run_calls_record: "run_calls record_call calls trace = trace @ calls"
  by (induction calls arbitrary: trace) (auto simp: run_calls_Nil run_calls_Cons record_call_def)

lemma py_round_Number:
  "isinstance_Number v \<Longrightarrow> \<exists>r. py_round rnd v n = Inr r"
  by (cases v) simp_all

lemma lr_loop_numbers:
  "\<forall>lr_val \<in> set lr_vals. isinstance_Number lr_val \<Longrightarrow>
   lr_loop rnd add_scalar g_id lr_vals step w
     = (run_calls add_scalar (lr_calls rnd g_id lr_vals step) w, None)"
proof (induction lr_vals arbitrary: g_id w)
  case Nil
  then show ?case by (simp add: run_calls_Nil)
next
  case (Cons lr_val rest)
  then have "isinstance_Number lr_val" by simp
  from py_round_Number [OF this, of rnd 6]
  obtain r where "py_round rnd lr_val 6 = Inr r" by blast
  with Cons show ?case
    by (simp add: run_calls_Cons)
qed

lemma lr_calls_length: "length (lr_calls rnd g_id lr_vals step) = length lr_vals"
  by (induction lr_vals arbitrary: g_id) simp_all



lemma number_or_truthy_True:
  "(number_or_truthy v = Inr True) = (isinstance_Number v \<or> truthy v = Inr True)"
  by (simp add: number_or_truthy_def)

lemma metrics_loop_defined:
  "\<forall>(name, v) \<in> set items. \<not> isl (number_or_truthy v) \<Longrightarrow>
   metrics_loop add_scalar items step w
     = (run_calls add_scalar (logged_metrics items step) w, None)"
proof (induction items arbitrary: w)
  case Nil
  then show ?case by (simp add: logged_metrics_def run_calls_Nil)
next
  case (Cons item rest)
  obtain name v where item: "item = (name, v)" by (cases item)
  with Cons.prems obtain c where c: "number_or_truthy v = Inr c"
    by (cases "number_or_truthy v") auto
  have rest: "metrics_loop add_scalar rest step w'
      = (run_calls add_scalar (logged_metrics rest step) w', None)" for w'
    using Cons by simp
  show ?case
  proof (cases c)
    case True
    with c have "isinstance_Number v \<or> truthy v = Inr True"
      by (simp add: number_or_truthy_True)
    with c True show ?thesis
      by (simp add: item rest logged_metrics_def run_calls_Cons)
  next
    case False
    with c have "\<not> (isinstance_Number v \<or> truthy v = Inr True)"
      using number_or_truthy_True [of v] by simp
    with c False show ?thesis
      by (simp add: item rest logged_metrics_def)
  qed
qed

lemma step_log_metrics_calls:
  assumes "\<forall>lr_val \<in> set (as_list lrs). isinstance_Number lr_val"
    and "\<forall>(name, v) \<in> set (metric_items metrics). \<not> isl (number_or_truthy v)"
  shows "step_log_metrics rnd add_scalar lrs w step metrics
     = (run_calls add_scalar
          (lr_calls rnd 0 (as_list lrs) step @ logged_metrics (metric_items metrics) step) w,
        None)"
proof (cases metrics)
  case None
  then show ?thesis
    by (simp add: step_log_metrics_def lr_loop_numbers [OF assms(1)] metric_items_def
        logged_metrics_def run_calls_append run_calls_Nil)
next
  case (Some m)
  with assms(2) have "\<forall>(name, v) \<in> set (flatten m [] ''/''). \<not> isl (number_or_truthy v)"
    by (simp add: metric_items_def)
  from metrics_loop_defined [OF this] Some show ?thesis
    by (simp add: step_log_metrics_def lr_loop_numbers [OF assms(1)] metric_items_def
        run_calls_append del: flatten.simps)
qed









text \<open>
  C9. An entry of the flattened metrics is passed to \<^verbatim>\<open>add_scalar\<close>, value unchanged,
  when its value is a number or is true, and is skipped when its value is no number and
  false; so the calls of \<open>step_log_metrics\<close> after the learning rates are the entries
  whose value is a number or true, in order. A numeric zero is logged; \<^verbatim>\<open>None\<close>, the
  empty string and the empty list are skipped; a string that is not empty is logged.
\<close>

theorem metric_entry_logged:
  "(isinstance_Number v \<or> truthy v = Inr True \<longrightarrow>
      metrics_loop add_scalar ((name, v) # rest) step w
        = metrics_loop add_scalar rest step (add_scalar name v step w))
   \<and> (\<not> isinstance_Number v' \<and> truthy v' = Inr False \<longrightarrow>
      metrics_loop add_scalar ((name, v') # rest) step w
        = metrics_loop add_scalar rest step w)
   \<and> ((\<forall>lr_val \<in> set (as_list lrs). isinstance_Number lr_val)
       \<and> (\<forall>(name, v) \<in> set (flatten m [] ''/''). \<not> isl (number_or_truthy v)) \<longrightarrow>
      step_log_metrics rnd record_call lrs [] step (Some m)
        = (lr_calls rnd 0 (as_list lrs) step
             @ map (\<lambda>(name, v). (name, v, step))
                 (filter (\<lambda>(name, v). isinstance_Number v \<or> truthy v = Inr True)
                    (flatten m [] ''/'')),
           None))
   \<and> number_or_truthy (PInt 0 :: 'f::zero pyval) = Inr True
   \<and> number_or_truthy (PFloat 0 :: 'f pyval) = Inr True
   \<and> number_or_truthy (PNone :: 'f pyval) = Inr False
   \<and> number_or_truthy (PStr [] :: 'f pyval) = Inr False
   \<and> number_or_truthy (PList [] :: 'f pyval) = Inr False
   \<and> (s \<noteq> [] \<longrightarrow> number_or_truthy (PStr s :: 'f pyval) = Inr True)"
proof -
  have "step_log_metrics rnd record_call lrs [] step (Some m)
        = (lr_calls rnd 0 (as_list lrs) step
             @ map (\<lambda>(name, v). (name, v, step))
                 (filter (\<lambda>(name, v). isinstance_Number v \<or> truthy v = Inr True)
                    (flatten m [] ''/'')),
           None)"
    if "\<forall>lr_val \<in> set (as_list lrs). isinstance_Number lr_val"
      and "\<forall>(name, v) \<in> set (flatten m [] ''/''). \<not> isl (number_or_truthy v)"
    using step_log_metrics_calls [of lrs "Some m" rnd record_call "[]" step] that
    by (simp add: metric_items_def run_calls_record logged_metrics_def del: flatten.simps)
  then show ?thesis
    by (auto simp: number_or_truthy_def simp del: flatten.simps)
qed


theorem metric_entry_logged_witness:
  "metrics_loop record_call [(''name'', PStr ''x'' :: rat pyval), (''zero'', PInt 0)] 3 []
     = metrics_loop record_call [(''zero'', PInt 0)] 3 [(''name'', PStr ''x'', 3)]
   \<and> metrics_loop record_call [(''aux'', PNone :: rat pyval), (''zero'', PInt 0)] 3 []
     = metrics_loop record_call [(''zero'', PInt 0)] 3 []
   \<and> step_log_metrics round_dec record_call (PFloat (1 / 2)) [] 3
        (Some [(''zero'', PFloat 0), (''none'', PNone), (''empty'', PStr []),
               (''nested'', PDict [(''list'', PList []), (''name'', PStr ''x'')])])
     = ([(''LR/Group-0'', PFloat (1 / 2), 3), (''zero'', PFloat 0, 3),
         (''nested/name'', PStr ''x'', 3)], None)
   \<and> number_or_truthy (PStr ''abc'' :: rat pyval) = Inr True"
  using metric_entry_logged
    [where v = "PStr ''x'' :: rat pyval" and v' = PNone and name = "''name''"
       and rest = "[(''zero'', PInt 0)]" and step = 3 and w = "[]"
       and add_scalar = record_call and rnd = round_dec and lrs = "PFloat (1 / 2)"
       and m = "[(''zero'', PFloat 0), (''none'', PNone), (''empty'', PStr []),
                 (''nested'', PDict [(''list'', PList []), (''name'', PStr ''x'')])]"
       and s = "''abc''"]
  by (simp add: as_list_def flatten_loop.simps dict_of_items_def
      number_or_truthy_def record_call_def str_nat.simps digit_char_def round_dec_def round_half_even_def)



section \<open>autocast_fn\<close>

text \<open>
  \<^verbatim>\<open>str_to_torch_dtype\<close> is the module's table of precision modes. The context manager
  \<^verbatim>\<open>torch.cuda.amp.autocast\<close> is a record of the arguments it is built with.
\<close>

datatype torch_dtype = Float16 | BFloat16

definition str_to_torch_dtype :: "(string \<times> torch_dtype) list" where
  "str_to_torch_dtype = [(''float16'', Float16), (''bfloat16'', BFloat16)]"

record autocast =
  autocast_enabled :: bool
  autocast_dtype :: "torch_dtype option"

text \<open>
  \<^verbatim>\<open>logger.error\<close> is defined outside this module. It is a parameter of the model: given
  the message, it raises an exception or returns. The two messages are the ones the module
  formats. \<^verbatim>\<open>torch.cuda.is_available()\<close> is a parameter too.
\<close>

definition str_of_optional :: "string option \<Rightarrow> string" where
  "str_of_optional s = (case s of None \<Rightarrow> ''None'' | Some t \<Rightarrow> t)"

definition precision_message :: "string option \<Rightarrow> string" where
  "precision_message amp_precision =
     ''For Mixed-precision training, supported dtypes are ['float16', 'bfloat16']. Got: ''
       @ str_of_optional amp_precision"

definition cuda_message :: string where
  "cuda_message = ''For mixed-precision training, CUDA device is required.''"

text \<open>
  \<^verbatim>\<open>amp_precision in str_to_torch_dtype\<close> and \<^verbatim>\<open>str_to_torch_dtype[amp_precision]\<close>, for
  an optional string: \<^verbatim>\<open>None\<close> is no key of the table.
\<close>

definition dtype_of :: "string option \<Rightarrow> torch_dtype option" where
  "dtype_of amp_precision =
     (case amp_precision of None \<Rightarrow> None | Some p \<Rightarrow> map_of str_to_torch_dtype p)"

definition autocast_fn ::
  "(string \<Rightarrow> exn option) \<Rightarrow> bool \<Rightarrow> bool \<Rightarrow> string option \<Rightarrow> exn + autocast" where
  "autocast_fn logger_error cuda_is_available enabled amp_precision =
     (if enabled then
        (case (if dtype_of amp_precision = None
               then logger_error (precision_message amp_precision) else None) of
           Some e \<Rightarrow> Inl e
         | None \<Rightarrow>
            (case (if \<not> cuda_is_available then logger_error cuda_message else None) of
               Some e \<Rightarrow> Inl e
             | None \<Rightarrow>
                (case dtype_of amp_precision of
                   None \<Rightarrow> Inl (KeyError amp_precision)
                 | Some d \<Rightarrow> Inr \<lparr>autocast_enabled = enabled, autocast_dtype = Some d\<rparr>)))
      else Inr \<lparr>autocast_enabled = False, autocast_dtype = None\<rparr>)"

text \<open>
  C3. With \<^verbatim>\<open>enabled=True\<close>: for the precisions \<^verbatim>\<open>float16\<close> and \<^verbatim>\<open>bfloat16\<close> on a
  machine with CUDA, \<open>autocast_fn\<close> returns the autocast context with the dtype the
  table gives. For any other precision, \<^verbatim>\<open>None\<close> among them, it returns no context: it
  ends in an exception, which is the one \<^verbatim>\<open>logger.error\<close> raises on the message about
  the unsupported precision, if it raises one.
\<close>

theorem autocast_fn_enabled:
  "((amp_precision = Some ''float16'' \<or> amp_precision = Some ''bfloat16'')
      \<and> cuda_is_available \<longrightarrow>
      autocast_fn logger_error cuda_is_available True amp_precision
        = Inr \<lparr>autocast_enabled = True, autocast_dtype = map_of str_to_torch_dtype (the amp_precision)\<rparr>)
   \<and> (amp' \<noteq> Some ''float16'' \<and> amp' \<noteq> Some ''bfloat16'' \<longrightarrow>
      isl (autocast_fn logger_error cuda' True amp')
      \<and> (\<forall>e. logger_error (precision_message amp') = Some e \<longrightarrow>
             autocast_fn logger_error cuda' True amp' = Inl e))"
  by (auto simp: autocast_fn_def dtype_of_def str_to_torch_dtype_def
      split: option.splits)


theorem autocast_fn_enabled_witness:
  "autocast_fn (\<lambda>m. Some (SystemExit m)) True True (Some ''bfloat16'')
     = Inr \<lparr>autocast_enabled = True, autocast_dtype = Some BFloat16\<rparr>
   \<and> autocast_fn (\<lambda>m. Some (SystemExit m)) False True (Some ''float32'')
     = Inl (SystemExit (precision_message (Some ''float32'')))
   \<and> autocast_fn (\<lambda>m. None) True True None = Inl (KeyError None)"
  using autocast_fn_enabled
    [where amp_precision = "Some ''bfloat16''" and cuda_is_available = True
       and logger_error = "\<lambda>m. Some (SystemExit m)" and amp' = "Some ''float32''"
       and cuda' = False]
  by (simp add: autocast_fn_def dtype_of_def str_to_torch_dtype_def)

section \<open>get_log_writers\<close>

text \<open>
  The function imports modules, creates a directory and constructs writers. What these
  do is given by an environment: whether the process is the master node, the exception an
  import or a constructor raises, if any. The function returns the list of the events it
  caused, in order, and the writers or the exception it ends with; \<open>Log_exception\<close> is a
  message that ends with the text of an exception. The options are the
  attributes the function reads, absent or a boolean.
\<close>

datatype writer =
    SummaryWriter string string
  | BoltLogger
  | HubLogger
  | FileLogger string

datatype event =
    Import string
  | Log string
  | Log_exception string exn
  | CreateDirectories string
  | Construct string

record opts =
  common_tensorboard_logging :: "bool option"
  common_bolt_logging :: "bool option"
  common_hub_logging :: "bool option"
  common_file_logging :: "bool option"

record env =
  is_master :: bool
  import_SummaryWriter :: "exn option"
  import_BoltLogger :: "exn option"
  import_HubLogger :: "exn option"
  create_directories :: "string \<Rightarrow> exn option"
  new_SummaryWriter :: "exn option"
  new_BoltLogger :: "exn option"
  new_HubLogger :: "exn option"
  new_FileLogger :: "exn option"

text \<open>
  The \<^verbatim>\<open>except\<close> clauses: ModuleNotFoundError is a subclass of ImportError; SystemExit and
  KeyboardInterrupt are no subclasses of Exception.
\<close>

fun isinstance_ImportError :: "exn \<Rightarrow> bool" where
  "isinstance_ImportError ImportError = True"
| "isinstance_ImportError ModuleNotFoundError = True"
| "isinstance_ImportError _ = False"

fun isinstance_ModuleNotFoundError :: "exn \<Rightarrow> bool" where
  "isinstance_ModuleNotFoundError ModuleNotFoundError = True"
| "isinstance_ModuleNotFoundError _ = False"

fun isinstance_Exception :: "exn \<Rightarrow> bool" where
  "isinstance_Exception (SystemExit m) = False"
| "isinstance_Exception KeyboardInterrupt = False"
| "isinstance_Exception _ = True"

definition getattr_default :: "bool option \<Rightarrow> bool \<Rightarrow> bool" where
  "getattr_default attr dflt = (case attr of None \<Rightarrow> dflt | Some v \<Rightarrow> v)"

definition os_path_join :: "string \<Rightarrow> string \<Rightarrow> string" where
  "os_path_join a b =
     (if a = [] \<or> last a = CHR ''/'' then a @ b else a @ ''/'' @ b)"

type_synonym writer_step = "writer list \<Rightarrow> event list \<Rightarrow> event list \<times> (exn + writer list)"

definition tensorboard_step :: "env \<Rightarrow> opts \<Rightarrow> string option \<Rightarrow> writer_step" where
  "tensorboard_step env opts save_location log_writers evs =
     (if getattr_default (common_tensorboard_logging opts) False \<and> save_location \<noteq> None then
        (let evs = evs @ [Import ''torch.utils.tensorboard.SummaryWriter''] in
         case import_SummaryWriter env of
           Some e \<Rightarrow>
             if isinstance_ImportError e then
               (evs @ [Log ''Unable to import SummaryWriter from torch.utils.tensorboard. Disabling tensorboard logging''],
                Inr log_writers)
             else (evs, Inl e)
         | None \<Rightarrow>
             (let exp_dir = the save_location @ ''/tb_logs'';
                  evs = evs @ [CreateDirectories exp_dir] in
              case create_directories env exp_dir of
                Some e \<Rightarrow> (evs, Inl e)
              | None \<Rightarrow>
                  (let evs = evs @ [Construct ''SummaryWriter''] in
                   case new_SummaryWriter env of
                     Some e \<Rightarrow> (evs, Inl e)
                   | None \<Rightarrow>
                       (evs, Inr (log_writers
                          @ [SummaryWriter exp_dir ''Training and Validation logs''])))))
      else (evs, Inr log_writers))"

definition bolt_step :: "env \<Rightarrow> opts \<Rightarrow> writer_step" where
  "bolt_step env opts log_writers evs =
     (if getattr_default (common_bolt_logging opts) False then
        (let evs = evs @ [Import ''corenet.internal.utils.bolt_logger.BoltLogger''] in
         case import_BoltLogger env of
           Some e \<Rightarrow>
             if isinstance_ModuleNotFoundError e then
               (evs @ [Log ''Unable to import bolt. Disabling bolt logging''], Inr log_writers)
             else (evs, Inl e)
         | None \<Rightarrow>
             (let evs = evs @ [Construct ''BoltLogger''] in
              case new_BoltLogger env of
                Some e \<Rightarrow> (evs, Inl e)
              | None \<Rightarrow> (evs, Inr (log_writers @ [BoltLogger]))))
      else (evs, Inr log_writers))"

definition hub_step :: "env \<Rightarrow> opts \<Rightarrow> writer_step" where
  "hub_step env opts log_writers evs =
     (if getattr_default (common_hub_logging opts) False then
        (let evs = evs @ [Import ''corenet.internal.utils.hub_logger.HubLogger''] in
         case import_HubLogger env of
           Some e \<Rightarrow>
             if isinstance_ModuleNotFoundError e then
               (evs @ [Log ''Unable to import hub. Disabling hub logging''], Inr log_writers)
             else (evs, Inl e)
         | None \<Rightarrow>
             (let evs = evs @ [Construct ''HubLogger''] in
              case new_HubLogger env of
                Some e \<Rightarrow>
                  if isinstance_Exception e then
                    (evs @ [Log_exception ''Unable to initialize hub logger. Disabling hub logging: '' e],
                     Inr log_writers)
                  else (evs, Inl e)
              | None \<Rightarrow> (evs, Inr (log_writers @ [HubLogger]))))
      else (evs, Inr log_writers))"

definition file_step :: "env \<Rightarrow> opts \<Rightarrow> string option \<Rightarrow> writer_step" where
  "file_step env opts save_location log_writers evs =
     (case common_file_logging opts of
        None \<Rightarrow> (evs, Inl AttributeError)
      | Some file_logging \<Rightarrow>
          if file_logging \<and> save_location \<noteq> None then
            (let evs = evs @ [Construct ''FileLogger''] in
             case new_FileLogger env of
               Some e \<Rightarrow> (evs, Inl e)
             | None \<Rightarrow>
                 (evs, Inr (log_writers
                    @ [FileLogger (os_path_join (the save_location) ''stats.pt'')])))
          else (evs, Inr log_writers))"

definition and_then :: "event list \<times> (exn + writer list) \<Rightarrow> writer_step \<Rightarrow> event list \<times> (exn + writer list)"
where
  "and_then r next_step =
     (case r of (evs, Inl e) \<Rightarrow> (evs, Inl e) | (evs, Inr log_writers) \<Rightarrow> next_step log_writers evs)"

definition get_log_writers ::
  "env \<Rightarrow> opts \<Rightarrow> string option \<Rightarrow> event list \<times> (exn + writer list)" where
  "get_log_writers env opts save_location =
     (if \<not> is_master env then ([], Inr [])
      else
        and_then (and_then (and_then
          (tensorboard_step env opts save_location [] [])
          (bolt_step env opts))
          (hub_step env opts))
          (file_step env opts save_location))"


text \<open>
  The writers the specification expects: those that are configured and available, in the
  order tensorboard, bolt, hub, file.
\<close>

definition available_writers :: "env \<Rightarrow> opts \<Rightarrow> string option \<Rightarrow> writer list" where
  "available_writers env opts save_location =
     (if getattr_default (common_tensorboard_logging opts) False \<and> save_location \<noteq> None
         \<and> import_SummaryWriter env = None
      then [SummaryWriter (the save_location @ ''/tb_logs'') ''Training and Validation logs'']
      else [])
     @ (if getattr_default (common_bolt_logging opts) False \<and> import_BoltLogger env = None
        then [BoltLogger] else [])
     @ (if getattr_default (common_hub_logging opts) False \<and> import_HubLogger env = None
           \<and> new_HubLogger env = None
        then [HubLogger] else [])
     @ (if common_file_logging opts = Some True \<and> save_location \<noteq> None
        then [FileLogger (os_path_join (the save_location) ''stats.pt'')] else [])"

text \<open>
  C8. On a process that is not the master node \<open>get_log_writers\<close> returns the empty list
  and causes no event: no import, no directory, no construction, whatever the options
  and the save location are.
\<close>

theorem get_log_writers_not_master:
  "\<not> is_master env \<Longrightarrow> get_log_writers env opts save_location = ([], Inr [])"
  by (simp add: get_log_writers_def)

lemma and_then_Inr: "r = (evs, Inr ws) \<Longrightarrow> and_then r next_step = next_step ws evs"
  by (simp add: and_then_def)

text \<open>
  C6, as the code has it. On the master node, let the import of SummaryWriter succeed or
  fail with an ImportError, let the imports of BoltLogger and HubLogger succeed or fail
  with ModuleNotFoundError, and let the construction of the hub logger succeed or raise
  an Exception; let the option \<^verbatim>\<open>common.file_logging\<close> be set, and let creating the
  directory and constructing the other writers succeed. Then no exception reaches the
  caller, and the list returned has exactly the configured writers that are available.
\<close>

theorem get_log_writers_fallback:
  assumes "is_master env"
    and "common_file_logging opts \<noteq> None"
    and "\<forall>e. import_SummaryWriter env = Some e \<longrightarrow> isinstance_ImportError e"
    and "\<forall>e. import_BoltLogger env = Some e \<longrightarrow> isinstance_ModuleNotFoundError e"
    and "\<forall>e. import_HubLogger env = Some e \<longrightarrow> isinstance_ModuleNotFoundError e"
    and "\<forall>e. new_HubLogger env = Some e \<longrightarrow> isinstance_Exception e"
    and "\<forall>dir. create_directories env dir = None"
    and "new_SummaryWriter env = None"
    and "new_BoltLogger env = None"
    and "new_FileLogger env = None"
  shows "snd (get_log_writers env opts save_location)
           = Inr (available_writers env opts save_location)"
proof -
  define tbw where "tbw =
    (if getattr_default (common_tensorboard_logging opts) False
        \<and> save_location \<noteq> None \<and> import_SummaryWriter env = None
     then [SummaryWriter (the save_location @ ''/tb_logs'') ''Training and Validation logs'']
     else [])"
  define boltw where "boltw =
    (if getattr_default (common_bolt_logging opts) False \<and> import_BoltLogger env = None
     then [BoltLogger] else [])"
  define hubw where "hubw =
    (if getattr_default (common_hub_logging opts) False \<and> import_HubLogger env = None
        \<and> new_HubLogger env = None
     then [HubLogger] else [])"
  define filew where "filew =
    (if common_file_logging opts = Some True \<and> save_location \<noteq> None
     then [FileLogger (os_path_join (the save_location) ''stats.pt'')] else [])"
  have "\<exists>evs'. tensorboard_step env opts save_location [] [] = (evs', Inr tbw)"
    using assms(3,7,8)
    by (auto simp: tensorboard_step_def tbw_def Let_def split: option.splits)
  then obtain evs1 where s1: "tensorboard_step env opts save_location [] [] = (evs1, Inr tbw)"
    by blast
  have "\<exists>evs'. bolt_step env opts tbw evs1 = (evs', Inr (tbw @ boltw))"
    using assms(4,9) by (auto simp: bolt_step_def boltw_def Let_def split: option.splits)
  then obtain evs2 where s2: "bolt_step env opts tbw evs1 = (evs2, Inr (tbw @ boltw))"
    by blast
  have "\<exists>evs'. hub_step env opts (tbw @ boltw) evs2 = (evs', Inr (tbw @ boltw @ hubw))"
    using assms(5,6) by (auto simp: hub_step_def hubw_def Let_def split: option.splits)
  then obtain evs3 where
    s3: "hub_step env opts (tbw @ boltw) evs2 = (evs3, Inr (tbw @ boltw @ hubw))"
    by blast
  have "\<exists>evs'. file_step env opts save_location (tbw @ boltw @ hubw) evs3
          = (evs', Inr (tbw @ boltw @ hubw @ filew))"
    using assms(2,10) by (auto simp: file_step_def filew_def Let_def split: option.splits)
  then obtain evs4 where
    s4: "file_step env opts save_location (tbw @ boltw @ hubw) evs3
          = (evs4, Inr (tbw @ boltw @ hubw @ filew))"
    by blast
  have "get_log_writers env opts save_location = (evs4, Inr (tbw @ boltw @ hubw @ filew))"
    using assms(1)
    by (simp add: get_log_writers_def and_then_Inr [OF s1] s2 and_then_Inr [OF refl] s3 s4)
  then show ?thesis
    by (simp add: available_writers_def tbw_def boltw_def hubw_def filew_def)
qed

theorem get_log_writers_not_master_witness:
  "get_log_writers
     \<lparr>is_master = False, import_SummaryWriter = None, import_BoltLogger = None,
      import_HubLogger = None, create_directories = (\<lambda>dir. None), new_SummaryWriter = None,
      new_BoltLogger = None, new_HubLogger = None, new_FileLogger = None\<rparr>
     \<lparr>common_tensorboard_logging = Some True, common_bolt_logging = Some True,
      common_hub_logging = Some True, common_file_logging = Some True\<rparr>
     (Some ''results'')
   = ([], Inr [])"
  using get_log_writers_not_master
    [of "\<lparr>is_master = False, import_SummaryWriter = None, import_BoltLogger = None,
      import_HubLogger = None, create_directories = (\<lambda>dir. None), new_SummaryWriter = None,
      new_BoltLogger = None, new_HubLogger = None, new_FileLogger = None\<rparr>"
     "\<lparr>common_tensorboard_logging = Some True, common_bolt_logging = Some True,
      common_hub_logging = Some True, common_file_logging = Some True\<rparr>"
     "Some ''results''"]
  by simp

theorem get_log_writers_fallback_witness:
  "get_log_writers
     \<lparr>is_master = True, import_SummaryWriter = None,
      import_BoltLogger = Some ModuleNotFoundError, import_HubLogger = None,
      create_directories = (\<lambda>dir. None), new_SummaryWriter = None,
      new_BoltLogger = None, new_HubLogger = Some RuntimeError, new_FileLogger = None\<rparr>
     \<lparr>common_tensorboard_logging = Some True, common_bolt_logging = Some True,
      common_hub_logging = Some True, common_file_logging = Some True\<rparr>
     (Some ''results'')
   = ([Import ''torch.utils.tensorboard.SummaryWriter'', CreateDirectories ''results/tb_logs'',
       Construct ''SummaryWriter'', Import ''corenet.internal.utils.bolt_logger.BoltLogger'',
       Log ''Unable to import bolt. Disabling bolt logging'',
       Import ''corenet.internal.utils.hub_logger.HubLogger'', Construct ''HubLogger'',
       Log_exception ''Unable to initialize hub logger. Disabling hub logging: '' RuntimeError,
       Construct ''FileLogger''],
      Inr [SummaryWriter ''results/tb_logs'' ''Training and Validation logs'',
           FileLogger ''results/stats.pt''])"
  using get_log_writers_fallback
    [of "\<lparr>is_master = True, import_SummaryWriter = None,
      import_BoltLogger = Some ModuleNotFoundError, import_HubLogger = None,
      create_directories = (\<lambda>dir. None), new_SummaryWriter = None,
      new_BoltLogger = None, new_HubLogger = Some RuntimeError, new_FileLogger = None\<rparr>"
     "\<lparr>common_tensorboard_logging = Some True, common_bolt_logging = Some True,
      common_hub_logging = Some True, common_file_logging = Some True\<rparr>"
     "Some ''results''"]
  by (simp add: get_log_writers_def and_then_def tensorboard_step_def bolt_step_def
      hub_step_def file_step_def getattr_default_def os_path_join_def Let_def
      available_writers_def)

text \<open>
  C6 as stated fails when the import of BoltLogger (or of HubLogger) fails with an
  ImportError that is no ModuleNotFoundError, as it does when the module is there and the
  name is not: \<^verbatim>\<open>except ModuleNotFoundError\<close> does not catch it, the exception reaches
  the caller, and the hub and file writers are not attempted.
\<close>

theorem get_log_writers_import_error:
  "get_log_writers
     \<lparr>is_master = True, import_SummaryWriter = None,
      import_BoltLogger = Some ImportError, import_HubLogger = None,
      create_directories = (\<lambda>dir. None), new_SummaryWriter = None,
      new_BoltLogger = None, new_HubLogger = None, new_FileLogger = None\<rparr>
     \<lparr>common_tensorboard_logging = Some False, common_bolt_logging = Some True,
      common_hub_logging = Some True, common_file_logging = Some True\<rparr>
     (Some ''results'')
   = ([Import ''corenet.internal.utils.bolt_logger.BoltLogger''], Inl ImportError)"
  by (simp add: get_log_writers_def and_then_def tensorboard_step_def bolt_step_def
      getattr_default_def Let_def)

section \<open>The arguments in the store\<close>

text \<open>
  Whether a call changes the containers it is given is a question about objects, not
  values. Here the dictionaries and lists live in a store, a list of objects addressed by
  their index, and a value refers to one by its address; an object, once allocated, keeps
  its address. \<open>OItems\<close> is a list of key-value pairs, as \<^verbatim>\<open>items\<close> in
  \<^verbatim>\<open>flatten\<close> is. The functions of the module are written once more on the store. They
  take the store and return the new one; \<open>depth\<close> is the number of nested calls that
  Python's recursion limit leaves, and the call that exceeds it raises RecursionError,
  which is what a dictionary that contains itself ends in. The log writer is a
  collaborator with a state of its own: \<^verbatim>\<open>add_scalar\<close> takes that state to a new one
  and is given no access to the store.
\<close>

datatype 'f hval =
    HNone
  | HBool bool
  | HInt int
  | HFloat 'f
  | HStr string
  | HTensor "nat list" "bool option"
  | HRef nat

datatype 'f obj =
    ODict "(string \<times> 'f hval) list"
  | OList "'f hval list"
  | OItems "(string \<times> 'f hval) list"

type_synonym 'f store = "'f obj list"

text \<open>A new object goes to the end of the store; reading an address that is not there fails.\<close>

definition alloc :: "'f store \<Rightarrow> 'f obj \<Rightarrow> 'f store \<times> nat" where
  "alloc h ob = (h @ [ob], length h)"

definition deref :: "'f store \<Rightarrow> nat \<Rightarrow> 'f obj option" where
  "deref h a = (if a < length h then Some (h ! a) else None)"

text \<open>\<^verbatim>\<open>isinstance(value, MutableMapping)\<close>: the value refers to a dictionary.\<close>

fun mapping_at :: "'f store \<Rightarrow> 'f hval \<Rightarrow> nat option" where
  "mapping_at h (HRef a) = (case deref h a of Some (ODict d) \<Rightarrow> Some a | _ \<Rightarrow> None)"
| "mapping_at h _ = None"

text \<open>\<^verbatim>\<open>items.extend(...)\<close> and \<^verbatim>\<open>items.append(...)\<close> change the list object in place.\<close>

definition extend_items ::
  "'f store \<Rightarrow> nat \<Rightarrow> (string \<times> 'f hval) list \<Rightarrow> 'f store option" where
  "extend_items h items new =
     (case deref h items of
        Some (OItems its) \<Rightarrow> Some (h[items := OItems (its @ new)])
      | _ \<Rightarrow> None)"

text \<open>
  \<open>flatten_store_loop depth k\<close> runs the last \<open>k\<close> iterations over the dictionary, which
  had \<open>n\<close> items when the loop began; Python raises RuntimeError when the size of a
  dictionary changes while it is iterated over.
\<close>

function flatten_store ::
    "nat \<Rightarrow> 'f store \<Rightarrow> nat \<Rightarrow> string \<Rightarrow> string \<Rightarrow> 'f store \<times> (exn + nat)"
  and flatten_store_loop ::
    "nat \<Rightarrow> nat \<Rightarrow> 'f store \<Rightarrow> nat \<Rightarrow> nat \<Rightarrow> string \<Rightarrow> string \<Rightarrow> nat
       \<Rightarrow> 'f store \<times> (exn + unit)"
where
  "flatten_store 0 h dictionary parent_key separator = (h, Inl RecursionError)"
| "flatten_store (Suc depth) h dictionary parent_key separator =
     (case deref h dictionary of
        Some (ODict d) \<Rightarrow>
          (case alloc h (OItems []) of
             (h1, items) \<Rightarrow>
               (case flatten_store_loop depth (length d) h1 dictionary (length d)
                       parent_key separator items of
                  (h2, Inl e) \<Rightarrow> (h2, Inl e)
                | (h2, Inr u) \<Rightarrow>
                    (case deref h2 items of
                       Some (OItems its) \<Rightarrow>
                         (case alloc h2 (ODict (dict_of_items its)) of
                            (h3, r) \<Rightarrow> (h3, Inr r))
                     | _ \<Rightarrow> (h2, Inl SystemError))))
      | _ \<Rightarrow> (h, Inl AttributeError))"
| "flatten_store_loop depth 0 h dictionary n parent_key separator items = (h, Inr ())"
| "flatten_store_loop depth (Suc k) h dictionary n parent_key separator items =
     (case deref h dictionary of
        Some (ODict d) \<Rightarrow>
          if length d \<noteq> n \<or> n \<le> k then (h, Inl RuntimeError)
          else
            (case d ! (n - Suc k) of
               (key, v) \<Rightarrow>
                 (case mapping_at h v of
                    Some a \<Rightarrow>
                      (case flatten_store depth h a
                              (extend_key separator parent_key key) separator of
                         (h1, Inl e) \<Rightarrow> (h1, Inl e)
                       | (h1, Inr r) \<Rightarrow>
                           (case deref h1 r of
                              Some (ODict flat) \<Rightarrow>
                                (case extend_items h1 items flat of
                                   Some h2 \<Rightarrow>
                                     flatten_store_loop depth k h2 dictionary n
                                       parent_key separator items
                                 | None \<Rightarrow> (h1, Inl SystemError))
                            | _ \<Rightarrow> (h1, Inl SystemError)))
                  | None \<Rightarrow>
                      (case extend_items h items
                              [(extend_key separator parent_key key, v)] of
                         Some h1 \<Rightarrow>
                           flatten_store_loop depth k h1 dictionary n
                             parent_key separator items
                       | None \<Rightarrow> (h, Inl SystemError))))
      | _ \<Rightarrow> (h, Inl SystemError))"
  by pat_completeness auto
termination
  by (relation "measures
        [\<lambda>a. case a of Inl (depth, _) \<Rightarrow> depth | Inr (depth, _) \<Rightarrow> depth,
         \<lambda>a. case a of Inl _ \<Rightarrow> 0 | Inr (_, k, _) \<Rightarrow> Suc k]") auto


text \<open>\<open>get_batch_size\<close>, \<open>log_metrics\<close> and \<open>step_log_metrics\<close> on the store.\<close>

fun get_batch_size_store :: "nat \<Rightarrow> 'f store \<Rightarrow> 'f hval \<Rightarrow> 'f store \<times> (exn + nat)" where
  "get_batch_size_store 0 h x = (h, Inl RecursionError)"
| "get_batch_size_store (Suc depth) h x =
     (case x of
        HTensor shape t \<Rightarrow> (h, case shape of [] \<Rightarrow> Inl IndexError | n # _ \<Rightarrow> Inr n)
      | HRef a \<Rightarrow>
          (case deref h a of
             Some (ODict d) \<Rightarrow>
               (case first_present batch_keys d of
                  Some v \<Rightarrow> get_batch_size_store depth h v
                | None \<Rightarrow> (h, Inl (NotImplementedError (Invalid_dict_keys (map fst d)))))
           | Some (OList xs) \<Rightarrow> (h, Inr (length xs))
           | Some (OItems its) \<Rightarrow> (h, Inr (length its))
           | None \<Rightarrow> (h, Inl SystemError))
      | _ \<Rightarrow> (h, Inl (NotImplementedError Invalid_type)))"

fun round_store :: "('f \<Rightarrow> nat \<Rightarrow> 'f) \<Rightarrow> 'f hval \<Rightarrow> nat \<Rightarrow> exn + 'f hval" where
  "round_store rnd (HFloat f) ndigits = Inr (HFloat (rnd f ndigits))"
| "round_store rnd (HInt i) ndigits = Inr (HInt i)"
| "round_store rnd (HBool b) ndigits = Inr (HInt (if b then 1 else 0))"
| "round_store rnd _ ndigits = Inl TypeError"

fun number_or_truthy_store :: "'f store \<Rightarrow> 'f hval \<Rightarrow> exn + bool" where
  "number_or_truthy_store h (HBool b) = Inr True"
| "number_or_truthy_store h (HInt i) = Inr True"
| "number_or_truthy_store h (HFloat f) = Inr True"
| "number_or_truthy_store h HNone = Inr False"
| "number_or_truthy_store h (HStr s) = Inr (s \<noteq> [])"
| "number_or_truthy_store h (HTensor shape t) =
     (case t of None \<Rightarrow> Inl RuntimeError | Some b \<Rightarrow> Inr b)"
| "number_or_truthy_store h (HRef a) =
     (case deref h a of
        Some (ODict d) \<Rightarrow> Inr (d \<noteq> [])
      | Some (OList xs) \<Rightarrow> Inr (xs \<noteq> [])
      | Some (OItems its) \<Rightarrow> Inr (its \<noteq> [])
      | None \<Rightarrow> Inl SystemError)"

type_synonym ('f, 'w) add_scalar_store = "string \<Rightarrow> 'f hval \<Rightarrow> int \<Rightarrow> 'w \<Rightarrow> 'w"

text \<open>
  \<^verbatim>\<open>if not isinstance(lrs, list): lrs = [lrs]\<close> builds a new list and binds the local name
  to it.
\<close>

definition as_list_store :: "'f store \<Rightarrow> 'f hval \<Rightarrow> 'f store \<times> 'f hval list" where
  "as_list_store h lrs =
     (case lrs of
        HRef a \<Rightarrow>
          (case deref h a of
             Some (OList xs) \<Rightarrow> (h, xs)
           | _ \<Rightarrow> (fst (alloc h (OList [lrs])), [lrs]))
      | _ \<Rightarrow> (fst (alloc h (OList [lrs])), [lrs]))"

fun lr_loop_store ::
  "('f \<Rightarrow> nat \<Rightarrow> 'f) \<Rightarrow> ('f, 'w) add_scalar_store \<Rightarrow> nat \<Rightarrow> 'f hval list \<Rightarrow> int \<Rightarrow> 'w
     \<Rightarrow> 'w \<times> exn option" where
  "lr_loop_store rnd add_scalar g_id [] step log_writer = (log_writer, None)"
| "lr_loop_store rnd add_scalar g_id (lr_val # rest) step log_writer =
     (case round_store rnd lr_val 6 of
        Inl e \<Rightarrow> (log_writer, Some e)
      | Inr r \<Rightarrow>
          lr_loop_store rnd add_scalar (Suc g_id) rest step
            (add_scalar (''LR/Group-'' @ str_nat g_id) r step log_writer))"

definition log_metrics_store ::
  "('f \<Rightarrow> nat \<Rightarrow> 'f) \<Rightarrow> ('f, 'w) add_scalar_store \<Rightarrow> 'f store \<Rightarrow> 'f hval \<Rightarrow> 'w
     \<Rightarrow> 'f hval \<Rightarrow> 'f hval \<Rightarrow> int \<Rightarrow> 'f hval \<Rightarrow> 'f hval \<Rightarrow> 'f hval \<Rightarrow> 'f hval
     \<Rightarrow> 'f hval \<Rightarrow> 'f hval \<Rightarrow> 'f store \<times> 'w \<times> exn option" where
  "log_metrics_store rnd add_scalar h lrs log_writer train_loss val_loss epoch best_metric
       val_ema_loss ckpt_metric_name train_ckpt_metric val_ckpt_metric val_ema_ckpt_metric =
     (case as_list_store h lrs of
        (h1, lr_vals) \<Rightarrow>
          (case lr_loop_store rnd add_scalar 0 lr_vals epoch log_writer of
             (w, Some e) \<Rightarrow> (h1, w, Some e)
           | (w, None) \<Rightarrow>
               (case round_store rnd best_metric 2 of
                  Inl e \<Rightarrow> (h1, w, Some e)
                | Inr r \<Rightarrow> (h1, add_scalar ''Common/Best Metric'' r epoch w, None))))"

fun metrics_loop_store ::
  "('f, 'w) add_scalar_store \<Rightarrow> 'f store \<Rightarrow> (string \<times> 'f hval) list \<Rightarrow> int \<Rightarrow> 'w
     \<Rightarrow> 'w \<times> exn option" where
  "metrics_loop_store add_scalar h [] step log_writer = (log_writer, None)"
| "metrics_loop_store add_scalar h ((metric_name, metric_value) # rest) step log_writer =
     (case number_or_truthy_store h metric_value of
        Inl e \<Rightarrow> (log_writer, Some e)
      | Inr c \<Rightarrow>
          if \<not> c then metrics_loop_store add_scalar h rest step log_writer
          else metrics_loop_store add_scalar h rest step
                 (add_scalar metric_name metric_value step log_writer))"

definition step_log_metrics_store ::
  "nat \<Rightarrow> ('f \<Rightarrow> nat \<Rightarrow> 'f) \<Rightarrow> ('f, 'w) add_scalar_store \<Rightarrow> 'f store \<Rightarrow> 'f hval \<Rightarrow> 'w
     \<Rightarrow> int \<Rightarrow> 'f hval \<Rightarrow> 'f store \<times> 'w \<times> exn option" where
  "step_log_metrics_store depth rnd add_scalar h lrs log_writer step metrics =
     (case as_list_store h lrs of
        (h1, lr_vals) \<Rightarrow>
          (case lr_loop_store rnd add_scalar 0 lr_vals step log_writer of
             (w, Some e) \<Rightarrow> (h1, w, Some e)
           | (w, None) \<Rightarrow>
               (case metrics of
                  HNone \<Rightarrow> (h1, w, None)
                | HRef m \<Rightarrow>
                    (case flatten_store depth h1 m [] ''/'' of
                       (h2, Inl e) \<Rightarrow> (h2, w, Some e)
                     | (h2, Inr r) \<Rightarrow>
                         (case deref h2 r of
                            Some (ODict flattened_metrics) \<Rightarrow>
                              (case metrics_loop_store add_scalar h2 flattened_metrics step w of
                                 (w', e) \<Rightarrow> (h2, w', e))
                          | _ \<Rightarrow> (h2, w, Some SystemError)))
                | _ \<Rightarrow> (h1, w, Some AttributeError))))"

text \<open>A writer that records the calls it receives.\<close>

definition record_call_store :: "('f, (string \<times> 'f hval \<times> int) list) add_scalar_store" where
  "record_call_store name v step trace = trace @ [(name, v, step)]"

text \<open>
  \<open>unchanged h h'\<close>: every object of \<open>h\<close> is in \<open>h'\<close>, at its address and with its
  contents. \<open>unchanged_except items h h'\<close> allows the object at \<open>items\<close> to differ.
\<close>

definition unchanged :: "'f store \<Rightarrow> 'f store \<Rightarrow> bool" where
  "unchanged h h' = (take (length h) h' = h)"

definition unchanged_except :: "nat \<Rightarrow> 'f store \<Rightarrow> 'f store \<Rightarrow> bool" where
  "unchanged_except items h h' =
     (length h \<le> length h' \<and> (\<forall>a < length h. a \<noteq> items \<longrightarrow> h' ! a = h ! a))"

text \<open>
  A value in the store represents a value of the first sections when it has the same
  shape, with the dictionaries and lists read from the store. \<open>nesting\<close> counts the
  dictionaries nested in each other.
\<close>

fun represents :: "'f store \<Rightarrow> 'f hval \<Rightarrow> 'f pyval \<Rightarrow> bool"
  and items_represent :: "'f store \<Rightarrow> (string \<times> 'f hval) list \<Rightarrow> (string \<times> 'f pyval) list \<Rightarrow> bool"
  and values_represent :: "'f store \<Rightarrow> 'f hval list \<Rightarrow> 'f pyval list \<Rightarrow> bool"
where
  "represents h v PNone = (v = HNone)"
| "represents h v (PBool b) = (v = HBool b)"
| "represents h v (PInt i) = (v = HInt i)"
| "represents h v (PFloat f) = (v = HFloat f)"
| "represents h v (PStr s) = (v = HStr s)"
| "represents h v (PTensor shape t) = (v = HTensor shape t)"
| "represents h v (PTuple ps) = False"
| "represents h v (PDict pd) =
     (case v of
        HRef a \<Rightarrow> (case deref h a of Some (ODict d) \<Rightarrow> items_represent h d pd | _ \<Rightarrow> False)
      | _ \<Rightarrow> False)"
| "represents h v (PList ps) =
     (case v of
        HRef a \<Rightarrow> (case deref h a of Some (OList xs) \<Rightarrow> values_represent h xs ps | _ \<Rightarrow> False)
      | _ \<Rightarrow> False)"
| "items_represent h d [] = (d = [])"
| "items_represent h d ((k', p) # pd) =
     (case d of [] \<Rightarrow> False
      | (k, v) # d' \<Rightarrow> k = k' \<and> represents h v p \<and> items_represent h d' pd)"
| "values_represent h xs [] = (xs = [])"
| "values_represent h xs (p # ps) =
     (case xs of [] \<Rightarrow> False | v # xs' \<Rightarrow> represents h v p \<and> values_represent h xs' ps)"

fun nesting :: "'f pyval \<Rightarrow> nat" and nesting_items :: "(string \<times> 'f pyval) list \<Rightarrow> nat" where
  "nesting (PDict d) = Suc (nesting_items d)"
| "nesting PNone = 0"
| "nesting (PBool b) = 0"
| "nesting (PInt i) = 0"
| "nesting (PFloat f) = 0"
| "nesting (PStr s) = 0"
| "nesting (PList xs) = 0"
| "nesting (PTuple xs) = 0"
| "nesting (PTensor shape t) = 0"
| "nesting_items [] = 0"
| "nesting_items ((k, v) # rest) = max (nesting v) (nesting_items rest)"


subsection \<open>No object of the caller is changed\<close>

lemma unchanged_iff:
  "unchanged h h' = (length h \<le> length h' \<and> (\<forall>a < length h. h' ! a = h ! a))"
  unfolding unchanged_def
  by (auto simp: list_eq_iff_nth_eq min_def)

lemma unchanged_refl: "unchanged h h"
  by (simp add: unchanged_def)

lemma unchanged_trans: "unchanged h h1 \<Longrightarrow> unchanged h1 h2 \<Longrightarrow> unchanged h h2"
  by (auto simp: unchanged_iff)

lemma unchanged_alloc: "alloc h ob = (h', a) \<Longrightarrow> unchanged h h' \<and> a = length h"
  by (auto simp: alloc_def unchanged_def)

lemma unchanged_except_refl: "unchanged_except items h h"
  by (simp add: unchanged_except_def)

lemma unchanged_except_trans:
  "unchanged_except items h h1 \<Longrightarrow> unchanged_except items h1 h2 \<Longrightarrow>
   unchanged_except items h h2"
  by (auto simp: unchanged_except_def)

lemma unchanged_imp_except: "unchanged h h' \<Longrightarrow> unchanged_except items h h'"
  by (auto simp: unchanged_iff unchanged_except_def)

lemma extend_items_except:
  "extend_items h items new = Some h' \<Longrightarrow> unchanged_except items h h'"
  by (auto simp: extend_items_def unchanged_except_def split: option.splits obj.splits)

lemma flatten_store_frame_aux:
  "\<And>h' r. flatten_store depth h dictionary parent_key separator = (h', r)
     \<Longrightarrow> unchanged (h :: 'f store) h'"
  "\<And>h' u. flatten_store_loop depth k h dictionary n parent_key separator items = (h', u)
     \<Longrightarrow> unchanged_except items (h :: 'f store) h'"
proof (induction depth h dictionary parent_key separator
         and depth k h dictionary n parent_key separator items
       rule: flatten_store_flatten_store_loop.induct)
  case (1 h dictionary parent_key separator)
  then show ?case by (simp add: unchanged_refl)
next
  case (2 depth h dictionary parent_key separator)
  show ?case
  proof (cases "deref h dictionary")
    case None
    with "2.prems" show ?thesis by (simp add: unchanged_refl)
  next
    case (Some ob)
    show ?thesis
    proof (cases ob)
      case (ODict d)
      obtain h1 items where al: "alloc h (OItems []) = (h1, items)"
        by (cases "alloc h (OItems [] :: 'f obj)")
      then have h1: "unchanged h h1" and items: "items = length h"
        using unchanged_alloc by blast+
      obtain h2 u where lp: "flatten_store_loop depth (length d) h1 dictionary (length d)
          parent_key separator items = (h2, u)"
        by (cases "flatten_store_loop depth (length d) h1 dictionary (length d)
          parent_key separator items")
      have ex: "unchanged_except items h1 h2"
        using "2.IH" [OF Some ODict al [symmetric] lp] .
      have h2: "unchanged h h2"
        using h1 ex items by (auto simp: unchanged_iff unchanged_except_def)
      have "(h', r) =
          (case u of
             Inl e \<Rightarrow> (h2, Inl e)
           | Inr x \<Rightarrow>
               (case deref h2 items of
                  Some (OItems its) \<Rightarrow>
                    (case alloc h2 (ODict (dict_of_items its)) of (h3, r) \<Rightarrow> (h3, Inr r))
                | _ \<Rightarrow> (h2, Inl SystemError)))"
        using "2.prems" by (simp add: Some ODict al lp)
      then show ?thesis
        using h2
        by (auto simp: alloc_def unchanged_iff nth_append
            split: sum.splits option.splits obj.splits)
    qed (use Some "2.prems" in \<open>simp_all add: unchanged_refl\<close>)
  qed
next
  case (3 depth h dictionary n parent_key separator items)
  then show ?case by (simp add: unchanged_except_refl)
next
  case (4 depth k h dictionary n parent_key separator items)
  show ?case
  proof (cases "deref h dictionary")
    case None
    with "4.prems" show ?thesis by (simp add: unchanged_except_refl)
  next
    case (Some ob)
    show ?thesis
    proof (cases ob)
      case (ODict d)
      show ?thesis
      proof (cases "length d \<noteq> n \<or> n \<le> k")
        case True
        with "4.prems" Some ODict show ?thesis by (auto simp: unchanged_except_refl)
      next
        case False
        obtain key v where kv: "d ! (n - Suc k) = (key, v)"
          by (cases "d ! (n - Suc k)")
        show ?thesis
        proof (cases "mapping_at h v")
          case None
          show ?thesis
          proof (cases "extend_items h items [(extend_key separator parent_key key, v)]")
            case None': None
            with "4.prems" Some ODict False kv None show ?thesis
              by (auto simp: unchanged_except_refl)
          next
            case (Some h1)
            have a: "unchanged_except items h h1"
              using Some by (rule extend_items_except)
            have "flatten_store_loop depth k h1 dictionary n parent_key separator items
                    = (h', u)"
              using "4.prems" \<open>deref h dictionary = Some ob\<close> ODict False kv None Some
              by auto
            from "4.IH"(1) [OF \<open>deref h dictionary = Some ob\<close> ODict False kv [symmetric]
                None Some this]
            show ?thesis using a unchanged_except_trans by blast
          qed
        next
          case (Some a)
          obtain h1 r where fs: "flatten_store depth h a
              (extend_key separator parent_key key) separator = (h1, r)"
            by (cases "flatten_store depth h a
              (extend_key separator parent_key key) separator")
          have u1: "unchanged h h1"
            using "4.IH"(2) [OF \<open>deref h dictionary = Some ob\<close> ODict False kv [symmetric]
                Some fs] .
          then have e1: "unchanged_except items h h1" by (rule unchanged_imp_except)
          show ?thesis
          proof (cases r)
            case (Inl e)
            with "4.prems" \<open>deref h dictionary = Some ob\<close> ODict False kv Some fs e1
            show ?thesis by auto
          next
            case (Inr res)
            show ?thesis
            proof (cases "deref h1 res")
              case None
              with "4.prems" \<open>deref h dictionary = Some ob\<close> ODict False kv Some fs e1 Inr
              show ?thesis by auto
            next
              case (Some ob1)
              note ob1 = this
              show ?thesis
              proof (cases ob1)
                case (ODict flat)
                note flat = this
                show ?thesis
                proof (cases "extend_items h1 items flat")
                  case None
                  with "4.prems" \<open>deref h dictionary = Some ob\<close> \<open>ob = ODict d\<close> False kv
                    \<open>mapping_at h v = Some a\<close> fs e1 Inr ob1 flat
                  show ?thesis by auto
                next
                  case (Some h2)
                  have e2: "unchanged_except items h1 h2"
                    using Some by (rule extend_items_except)
                  have "flatten_store_loop depth k h2 dictionary n parent_key separator items
                          = (h', u)"
                    using "4.prems" \<open>deref h dictionary = Some ob\<close> \<open>ob = ODict d\<close> False kv
                      \<open>mapping_at h v = Some a\<close> fs Inr ob1 flat Some
                    by auto
                  from "4.IH"(3) [OF \<open>deref h dictionary = Some ob\<close> \<open>ob = ODict d\<close> False
                      kv [symmetric] \<open>mapping_at h v = Some a\<close> fs [symmetric] Inr ob1 flat
                      Some this]
                  show ?thesis
                    using e1 e2 unchanged_except_trans by blast
                qed
              qed (use "4.prems" \<open>deref h dictionary = Some ob\<close> \<open>ob = ODict d\<close> False kv
                    \<open>mapping_at h v = Some a\<close> fs e1 Inr ob1 in auto)
            qed
          qed
        qed
      qed
    qed (use Some "4.prems" in \<open>simp_all add: unchanged_except_refl\<close>)
  qed
qed

lemma flatten_store_unchanged:
  "unchanged h (fst (flatten_store depth h dictionary parent_key separator))"
  using flatten_store_frame_aux(1) [OF surjective_pairing] .

lemma get_batch_size_store_unchanged: "fst (get_batch_size_store depth h x) = h"
proof (induction depth h x rule: get_batch_size_store.induct)
  case (1 h x)
  then show ?case by simp
next
  case (2 depth h x)
  then show ?case
    by (auto split: hval.splits option.splits obj.splits)
qed

lemma as_list_store_unchanged: "unchanged h (fst (as_list_store h lrs))"
  by (auto simp: as_list_store_def alloc_def unchanged_def
      split: hval.splits option.splits obj.splits)

lemma log_metrics_store_unchanged:
  "unchanged h
     (fst (log_metrics_store rnd add_scalar h lrs log_writer train_loss val_loss epoch
             best_metric val_ema_loss ckpt_metric_name train_ckpt_metric val_ckpt_metric
             val_ema_ckpt_metric))"
  using as_list_store_unchanged [of h lrs]
  by (auto simp: log_metrics_store_def split: prod.splits option.splits sum.splits)

lemma step_log_metrics_store_unchanged:
  "unchanged h
     (fst (step_log_metrics_store depth rnd add_scalar h lrs log_writer step metrics))"
proof -
  obtain h1 lr_vals where al: "as_list_store h lrs = (h1, lr_vals)"
    by (cases "as_list_store h lrs")
  then have h1: "unchanged h h1"
    using as_list_store_unchanged [of h lrs] by simp
  have fl: "unchanged h h2" if "flatten_store depth h1 m [] ''/'' = (h2, r)" for m h2 r
    using h1 flatten_store_unchanged [of h1 depth m "[]" "''/''"] that unchanged_trans
    by fastforce
  show ?thesis
    using h1
    by (auto simp: step_log_metrics_store_def al dest: fl
        split: prod.splits option.splits sum.splits hval.splits obj.splits)
qed


subsection \<open>The functions on the store and the functions on values\<close>

text \<open>
  On a dictionary that the store represents, and with a recursion limit above its
  nesting, \<open>flatten_store\<close> returns a new dictionary that represents what \<open>flatten\<close>
  returns, and \<open>get_batch_size_store\<close> returns what \<open>get_batch_size\<close> returns.
\<close>

lemma deref_unchanged: "unchanged h0 h \<Longrightarrow> deref h0 a = Some ob \<Longrightarrow> deref h a = Some ob"
  by (auto simp: unchanged_iff deref_def split: if_splits)

lemma mapping_at_represents:
  "represents h0 v p \<Longrightarrow> unchanged h0 h \<Longrightarrow>
   mapping_at h v = (case p of PDict pd \<Rightarrow> Some (case v of HRef a \<Rightarrow> a) | _ \<Rightarrow> None)"
  by (cases p)
     (auto simp: deref_unchanged split: hval.splits option.splits obj.splits)

lemma items_represent_length: "items_represent h d pd \<Longrightarrow> length d = length pd"
  by (induction pd arbitrary: d) (auto split: list.splits)

lemma items_represent_nth:
  "items_represent h d pd \<Longrightarrow> i < length pd \<Longrightarrow>
   fst (d ! i) = fst (pd ! i) \<and> represents h (snd (d ! i)) (snd (pd ! i))"
proof (induction pd arbitrary: d i)
  case Nil
  then show ?case by simp
next
  case (Cons a pd)
  then show ?case
    by (cases a; cases d; cases i) auto
qed

lemma items_represent_append:
  "items_represent h d pd \<Longrightarrow> items_represent h e pe \<Longrightarrow>
   items_represent h (d @ e) (pd @ pe)"
  by (induction pd arbitrary: d) (auto split: list.splits)

lemma nesting_items_nth: "i < length pd \<Longrightarrow> nesting (snd (pd ! i)) \<le> nesting_items pd"
proof (induction pd arbitrary: i)
  case Nil
  then show ?case by simp
next
  case (Cons a pd)
  then show ?case
    by (cases a; cases i) (auto simp: le_max_iff_disj)
qed


lemma items_represent_setitem:
  "items_represent h acc pacc \<Longrightarrow> represents h v p \<Longrightarrow>
   items_represent h (dict_setitem acc k v) (dict_setitem pacc k p)"
proof (induction pacc arbitrary: acc)
  case Nil
  then show ?case by simp
next
  case (Cons a pacc)
  then show ?case
    by (cases a; cases acc) auto
qed

lemma items_represent_foldl:
  "items_represent h acc pacc \<Longrightarrow> items_represent h its pits \<Longrightarrow>
   items_represent h (foldl (\<lambda>d (key, v). dict_setitem d key v) acc its)
     (foldl (\<lambda>d (key, v). dict_setitem d key v) pacc pits)"
proof (induction pits arbitrary: its acc pacc)
  case Nil
  then show ?case by simp
next
  case (Cons a pits)
  then show ?case
    by (cases a; cases its) (auto simp: items_represent_setitem)
qed

lemma items_represent_dict_of_items:
  "items_represent h its pits \<Longrightarrow> items_represent h (dict_of_items its) (dict_of_items pits)"
  unfolding dict_of_items_def by (rule items_represent_foldl) simp_all

lemma unchanged_update:
  "unchanged h0 h \<Longrightarrow> length h0 \<le> items \<Longrightarrow> unchanged h0 (h[items := ob])"
  by (auto simp: unchanged_iff)

lemma flatten_store_refines_aux:
  "\<And>pd. unchanged h0 h \<Longrightarrow> represents h0 (HRef dictionary) (PDict pd) \<Longrightarrow>
     nesting (PDict pd) \<le> depth \<Longrightarrow>
     \<exists>h' r flat. flatten_store depth (h :: 'f store) dictionary parent_key separator
                    = (h', Inr r)
       \<and> deref h' r = Some (ODict flat)
       \<and> items_represent h0 flat (flatten pd parent_key separator)"
  "\<And>d pd its pits. unchanged h0 h \<Longrightarrow> deref h0 dictionary = Some (ODict d) \<Longrightarrow>
     items_represent h0 d pd \<Longrightarrow> length d = n \<Longrightarrow> k \<le> n \<Longrightarrow>
     nesting_items pd \<le> depth \<Longrightarrow> length h0 \<le> items \<Longrightarrow>
     deref h items = Some (OItems its) \<Longrightarrow> items_represent h0 its pits \<Longrightarrow>
     \<exists>h' its'. flatten_store_loop depth k (h :: 'f store) dictionary n parent_key separator
                    items = (h', Inr ())
       \<and> deref h' items = Some (OItems its')
       \<and> items_represent h0 its'
            (flatten_loop (drop (n - k) pd) parent_key separator pits)
       \<and> unchanged h0 h'"
proof (induction depth h dictionary parent_key separator
         and depth k h dictionary n parent_key separator items
       rule: flatten_store_flatten_store_loop.induct)
  case (1 h dictionary parent_key separator)
  then show ?case by simp
next
  case (2 depth h dictionary parent_key separator)
  from "2.prems"(2) obtain d where d0: "deref h0 dictionary = Some (ODict d)"
    and rep: "items_represent h0 d pd"
    by (auto split: option.splits obj.splits)
  have d: "deref h dictionary = Some (ODict d)"
    using "2.prems"(1) d0 by (rule deref_unchanged)
  let ?h1 = "h @ [OItems []]"
  have al: "(?h1, length h) = alloc h (OItems [])"
    by (simp add: alloc_def)
  have u1: "unchanged h0 ?h1"
    using "2.prems"(1) by (auto simp: unchanged_iff nth_append)
  have len: "length h0 \<le> length h"
    using "2.prems"(1) by (simp add: unchanged_iff)
  have "\<exists>h' its'. flatten_store_loop depth (length d) ?h1 dictionary (length d)
          parent_key separator (length h) = (h', Inr ())
       \<and> deref h' (length h) = Some (OItems its')
       \<and> items_represent h0 its'
            (flatten_loop (drop (length d - length d) pd) parent_key separator [])
       \<and> unchanged h0 h'"
    using "2.prems"(3)
    by (intro "2.IH" [OF d refl al u1 d0 rep refl order_refl _ len])
       (simp_all add: deref_def)
  then obtain h2 its' where
    lp: "flatten_store_loop depth (length d) ?h1 dictionary (length d)
          parent_key separator (length h) = (h2, Inr ())"
    and its': "deref h2 (length h) = Some (OItems its')"
    and rep': "items_represent h0 its' (flatten_loop pd parent_key separator [])"
    by auto
  have "flatten_store (Suc depth) h dictionary parent_key separator
          = (h2 @ [ODict (dict_of_items its')], Inr (length h2))"
    by (simp add: d alloc_def lp its')
  moreover have "deref (h2 @ [ODict (dict_of_items its')]) (length h2)
          = Some (ODict (dict_of_items its'))"
    by (simp add: deref_def)
  moreover have "items_represent h0 (dict_of_items its') (flatten pd parent_key separator)"
    using rep' by (simp add: items_represent_dict_of_items)
  ultimately show ?case by blast
next
  case (3 depth h dictionary n parent_key separator items)
  have "length pd = n"
    using "3.prems"(3,4) items_represent_length by fastforce
  with "3.prems" show ?case by simp
next
  case (4 depth k h dictionary n parent_key separator items)
  let ?i = "n - Suc k"
  have i: "?i < n" and nk: "n - k = Suc ?i"
    using "4.prems"(5) by simp_all
  have lpd: "length pd = n"
    using "4.prems"(3,4) items_represent_length by fastforce
  have dh: "deref h dictionary = Some (ODict d)"
    using "4.prems"(1,2) by (rule deref_unchanged)
  have guard: "\<not> (length d \<noteq> n \<or> n \<le> k)"
    using "4.prems"(4,5) by simp
  obtain key v where kv: "d ! ?i = (key, v)" by (cases "d ! ?i")
  obtain key' p where kp: "pd ! ?i = (key', p)" by (cases "pd ! ?i")
  have key: "key' = key" and rp: "represents h0 v p"
    using items_represent_nth [OF "4.prems"(3), of ?i] i lpd kv kp by simp_all
  have dr: "drop (n - Suc k) pd = (key, p) # drop (n - k) pd"
    using Cons_nth_drop_Suc [of ?i pd] i lpd kp key nk by simp
  have nest_p: "nesting p \<le> depth"
    using nesting_items_nth [of ?i pd] i lpd kp "4.prems"(6) by simp
  let ?nk = "extend_key separator parent_key key"
  have ma: "mapping_at h v = (case p of PDict pd' \<Rightarrow> Some (case v of HRef a \<Rightarrow> a) | _ \<Rightarrow> None)"
    using rp "4.prems"(1) by (rule mapping_at_represents)
  have items_lt: "items < length h"
    using "4.prems"(8) by (simp add: deref_def split: if_splits)
  show ?case
  proof (cases "isinstance_Dict p")
    case False
    then have none: "mapping_at h v = None"
      using ma by (cases p) simp_all
    let ?h1 = "h[items := OItems (its @ [(?nk, v)])]"
    have ext: "extend_items h items [(?nk, v)] = Some ?h1"
      using "4.prems"(8) by (simp add: extend_items_def)
    have u1: "unchanged h0 ?h1"
      using "4.prems"(1,7) by (rule unchanged_update)
    have d1: "deref ?h1 items = Some (OItems (its @ [(?nk, v)]))"
      using items_lt by (simp add: deref_def)
    have r1: "items_represent h0 (its @ [(?nk, v)]) (pits @ [(?nk, p)])"
      using "4.prems"(9) rp by (intro items_represent_append) simp_all
    have kn: "k \<le> n" using "4.prems"(5) by simp
    from "4.IH"(1) [OF dh refl guard kv [symmetric] none ext u1 "4.prems"(2,3,4) kn
        "4.prems"(6,7) d1 r1]
    obtain h' its' where
      lp: "flatten_store_loop depth k ?h1 dictionary n parent_key separator items
            = (h', Inr ())"
      and rest: "deref h' items = Some (OItems its')"
        "items_represent h0 its'
           (flatten_loop (drop (n - k) pd) parent_key separator (pits @ [(?nk, p)]))"
        "unchanged h0 h'"
      by blast
    have "flatten_store_loop depth (Suc k) h dictionary n parent_key separator items
            = (h', Inr ())"
      using guard by (simp add: dh kv none ext lp)
    moreover have "flatten_loop (drop (n - Suc k) pd) parent_key separator pits
        = flatten_loop (drop (n - k) pd) parent_key separator (pits @ [(?nk, p)])"
      using False by (cases p) (simp_all add: dr flatten_loop_Cons)
    ultimately show ?thesis using rest by auto
  next
    case True
    then obtain pd' where p: "p = PDict pd'" by (cases p) auto
    with rp obtain a d' where v: "v = HRef a"
      and da: "deref h0 a = Some (ODict d')"
      by (auto split: hval.splits option.splits obj.splits)
    have some: "mapping_at h v = Some a"
      using ma p v by simp
    have rpa: "represents h0 (HRef a) (PDict pd')"
      using rp p v by simp
    have nst: "nesting (PDict pd') \<le> depth"
      using nest_p p by simp
    obtain h1 res where fs: "flatten_store depth h a ?nk separator = (h1, res)"
      by (cases "flatten_store depth h a ?nk separator")
    from "4.IH"(2) [OF dh refl guard kv [symmetric] some "4.prems"(1) rpa nst] fs
    obtain r flat where res: "res = Inr r"
      and dflat: "deref h1 r = Some (ODict flat)"
      and rflat: "items_represent h0 flat (flatten pd' ?nk separator)"
      by auto
    have uh1: "unchanged h h1"
      using flatten_store_unchanged [of h depth a ?nk separator] fs by simp
    have u01: "unchanged h0 h1"
      using "4.prems"(1) uh1 by (rule unchanged_trans)
    have di1: "deref h1 items = Some (OItems its)"
      using uh1 "4.prems"(8) by (rule deref_unchanged)
    let ?h2 = "h1[items := OItems (its @ flat)]"
    have ext: "extend_items h1 items flat = Some ?h2"
      using di1 by (simp add: extend_items_def)
    have u2: "unchanged h0 ?h2"
      using u01 "4.prems"(7) by (rule unchanged_update)
    have items_lt1: "items < length h1"
      using di1 by (simp add: deref_def split: if_splits)
    have d2: "deref ?h2 items = Some (OItems (its @ flat))"
      using items_lt1 by (simp add: deref_def)
    have r2: "items_represent h0 (its @ flat) (pits @ flatten pd' ?nk separator)"
      using "4.prems"(9) rflat by (rule items_represent_append)
    have kn: "k \<le> n" using "4.prems"(5) by simp
    from "4.IH"(3) [OF dh refl guard kv [symmetric] some fs [symmetric] res dflat refl ext
        u2 "4.prems"(2,3,4) kn "4.prems"(6,7) d2 r2]
    obtain h' its' where
      lp: "flatten_store_loop depth k ?h2 dictionary n parent_key separator items
            = (h', Inr ())"
      and rest: "deref h' items = Some (OItems its')"
        "items_represent h0 its'
           (flatten_loop (drop (n - k) pd) parent_key separator
              (pits @ flatten pd' ?nk separator))"
        "unchanged h0 h'"
      by blast
    have "flatten_store_loop depth (Suc k) h dictionary n parent_key separator items
            = (h', Inr ())"
      using guard by (simp add: dh kv some fs res dflat ext lp)
    moreover have "flatten_loop (drop (n - Suc k) pd) parent_key separator pits
        = flatten_loop (drop (n - k) pd) parent_key separator
            (pits @ flatten pd' ?nk separator)"
      by (simp add: dr p flatten_loop_Cons del: flatten.simps)
    ultimately show ?thesis using rest by auto
  qed
qed


lemma flatten_store_refines:
  assumes "represents h (HRef dictionary) (PDict pd)" and "nesting (PDict pd) \<le> depth"
  shows "\<exists>h' r flat. flatten_store depth h dictionary parent_key separator = (h', Inr r)
       \<and> deref h' r = Some (ODict flat)
       \<and> items_represent h flat (flatten pd parent_key separator)
       \<and> unchanged h h'"
proof -
  from flatten_store_refines_aux(1) [OF unchanged_refl assms]
  obtain h' r flat where
    *: "flatten_store depth h dictionary parent_key separator = (h', Inr r)"
      "deref h' r = Some (ODict flat)"
      "items_represent h flat (flatten pd parent_key separator)"
    by blast
  moreover have "unchanged h h'"
    using flatten_store_unchanged [of h depth dictionary parent_key separator] *(1) by simp
  ultimately show ?thesis by blast
qed

lemma items_represent_map_of:
  "items_represent h d pd \<Longrightarrow>
   (case map_of pd k of
      None \<Rightarrow> map_of d k = None
    | Some p \<Rightarrow> (\<exists>v. map_of d k = Some v \<and> represents h v p)
                 \<and> nesting p \<le> nesting_items pd)"
proof (induction pd arbitrary: d)
  case Nil
  then show ?case by simp
next
  case (Cons a pd)
  obtain k' p where a: "a = (k', p)" by (cases a)
  from Cons.prems obtain v d' where d: "d = (k', v) # d'"
    and rp: "represents h v p" and rest: "items_represent h d' pd"
    by (auto simp: a split: list.splits)
  from Cons.IH [OF rest] show ?case
    using rp by (auto simp: a d le_max_iff_disj split: option.splits)
qed

lemma items_represent_first_present:
  "items_represent h d pd \<Longrightarrow>
   (case first_present ks pd of
      None \<Rightarrow> first_present ks d = None
    | Some p \<Rightarrow> (\<exists>v. first_present ks d = Some v \<and> represents h v p)
                 \<and> nesting p \<le> nesting_items pd)"
proof (induction ks)
  case Nil
  then show ?case by simp
next
  case (Cons k ks)
  from items_represent_map_of [OF Cons.prems, of k] Cons.IH [OF Cons.prems]
  show ?case by (auto split: option.splits)
qed

lemma items_represent_keys: "items_represent h d pd \<Longrightarrow> map fst d = map fst pd"
  by (induction pd arbitrary: d) (auto split: list.splits)

lemma values_represent_length: "values_represent h xs ps \<Longrightarrow> length xs = length ps"
  by (induction ps arbitrary: xs) (auto split: list.splits)

lemma get_batch_size_store_refines:
  "represents h x p \<Longrightarrow> nesting p < depth \<Longrightarrow>
   get_batch_size_store depth h x = (h, get_batch_size p)"
proof (induction depth h x arbitrary: p rule: get_batch_size_store.induct)
  case (1 h x)
  then show ?case by simp
next
  case (2 depth h x)
  show ?case
  proof (cases p)
    case (PDict pd)
    with "2.prems"(1) obtain a d where x: "x = HRef a"
      and d: "deref h a = Some (ODict d)" and rep: "items_represent h d pd"
      by (auto split: hval.splits option.splits obj.splits)
    show ?thesis
    proof (cases "first_present batch_keys pd")
      case None
      with items_represent_first_present [OF rep, of batch_keys]
      have "first_present batch_keys d = None" by simp
      with None show ?thesis
        by (simp add: PDict x d items_represent_keys [OF rep])
    next
      case (Some q)
      with items_represent_first_present [OF rep, of batch_keys]
      obtain v where v: "first_present batch_keys d = Some v"
        and rq: "represents h v q" and nq: "nesting q \<le> nesting_items pd"
        by auto
      have "nesting q < depth"
        using nq "2.prems"(2) PDict by simp
      from "2.IH" [OF x d refl v rq this] show ?thesis
        by (simp add: PDict x d v Some)
    qed
  next
    case (PList ps)
    with "2.prems"(1) show ?thesis
      by (auto simp: values_represent_length split: hval.splits option.splits obj.splits)
  qed (use "2.prems"(1) in \<open>auto split: list.splits\<close>)
qed

text \<open>
  C7. No call changes an object that is in the store when it begins: \<open>flatten\<close> leaves
  the dictionary it is given and every dictionary nested in it as they are (it only
  allocates its lists of items and its results), \<open>get_batch_size\<close> leaves the store as
  it is, and \<open>log_metrics\<close> and \<open>step_log_metrics\<close> leave the list of learning rates
  and the dictionary of metrics as they are; a learning rate that is no list is put in a
  list that is newly allocated.
\<close>

theorem arguments_unchanged:
  "unchanged h (fst (flatten_store depth h dictionary parent_key separator))
   \<and> fst (get_batch_size_store depth h x) = h
   \<and> unchanged h
        (fst (log_metrics_store rnd add_scalar h lrs log_writer train_loss val_loss epoch
                best_metric val_ema_loss ckpt_metric_name train_ckpt_metric val_ckpt_metric
                val_ema_ckpt_metric))
   \<and> unchanged h
        (fst (step_log_metrics_store depth rnd add_scalar h lrs log_writer step metrics))"
  by (simp add: flatten_store_unchanged get_batch_size_store_unchanged
      log_metrics_store_unchanged step_log_metrics_store_unchanged)

theorem arguments_unchanged_witness:
  "flatten_store 10
       [ODict [(''loss'', HRef 1), (''acc'', HInt 1)], ODict [(''total'', HFloat 0)],
        OList [HFloat (1 / 4)]] 0 [] ''/''
     = ([ODict [(''loss'', HRef 1), (''acc'', HInt 1)], ODict [(''total'', HFloat 0)],
         OList [HFloat (1 / 4)],
         OItems [(''loss/total'', HFloat 0), (''acc'', HInt 1)],
         OItems [(''loss/total'', HFloat 0)], ODict [(''loss/total'', HFloat 0)],
         ODict [(''loss/total'', HFloat 0), (''acc'', HInt 1)]], Inr 6)
   \<and> step_log_metrics_store 10 round_dec record_call_store
       [ODict [(''loss'', HRef 1), (''acc'', HInt 1)], ODict [(''total'', HFloat 0)],
        OList [HFloat (1 / 4)]] (HRef 2) [] 7 (HRef 0)
     = ([ODict [(''loss'', HRef 1), (''acc'', HInt 1)], ODict [(''total'', HFloat 0)],
         OList [HFloat (1 / 4)],
         OItems [(''loss/total'', HFloat 0), (''acc'', HInt 1)],
         OItems [(''loss/total'', HFloat 0)], ODict [(''loss/total'', HFloat 0)],
         ODict [(''loss/total'', HFloat 0), (''acc'', HInt 1)]],
        [(''LR/Group-0'', HFloat (1 / 4), 7), (''loss/total'', HFloat 0, 7),
         (''acc'', HInt 1, 7)], None)
   \<and> log_metrics_store round_dec record_call_store
       [ODict [(''loss'', HRef 1), (''acc'', HInt 1)], ODict [(''total'', HFloat 0)],
        OList [HFloat (1 / 4)]] (HFloat (1 / 8)) [] (HFloat 1) (HFloat 2) 3 (HFloat (3 / 4))
       HNone HNone HNone HNone HNone
     = ([ODict [(''loss'', HRef 1), (''acc'', HInt 1)], ODict [(''total'', HFloat 0)],
         OList [HFloat (1 / 4)], OList [HFloat (1 / 8)]],
        [(''LR/Group-0'', HFloat (1 / 8), 3), (''Common/Best Metric'', HFloat (3 / 4), 3)],
        None)"
  using arguments_unchanged
    [where h = "[ODict [(''loss'', HRef 1), (''acc'', HInt 1)], ODict [(''total'', HFloat 0)],
        OList [HFloat (1 / 4 :: rat)]]" and depth = 10 and dictionary = 0
       and parent_key = "[]" and separator = "''/''" and x = "HRef 0"
       and rnd = round_dec and add_scalar = record_call_store and lrs = "HRef 2"
       and log_writer = "[]" and step = 7 and metrics = "HRef 0"]
  by (simp add: numeral_eq_Suc deref_def alloc_def extend_items_def extend_key_def
      dict_of_items_def step_log_metrics_store_def log_metrics_store_def as_list_store_def
      record_call_store_def round_dec_def round_half_even_def str_nat.simps
      digit_char_def)

end
